theory Spec2Isabelle
  imports Complex_Main "HOL-Library.Log_Nat"
begin

section \<open>The stddraw module: state, errors, toolkit calls\<close>

text \<open>
  The module \<^verbatim>\<open>src/stdlib/stddraw.py\<close> keeps its configuration in module-level
  globals and forwards all drawing to pygame. The globals become one record; every
  function of the module takes the record and returns it updated. Each call into
  pygame, time or the dialog subprocesses is appended to the field \<open>calls\<close>, which
  stands for the surfaces \<^verbatim>\<open>_background\<close> and \<^verbatim>\<open>_surface\<close> and for the screen.

  Numbers are modelled twice. In this first part a Python float is an exact rational
  (\<^typ>\<open>rat\<close>), and \<^verbatim>\<open>float(x)\<close> of a number is the number itself: this is the
  arithmetic in which the two coordinate mappings are inverse to each other, and it is
  enough for everything that does not depend on the value of a float (which function
  raises on which check, which globals a function leaves alone, the queue of keys).
  It computes what the program computes wherever the program's operations are exact,
  as they are on the dyadic numbers of the examples below; it cannot show rounding,
  overflow, infinities or NaN. The part on IEEE doubles further down models the
  numeric functions again with the arithmetic of the program, for the inputs where
  the two differ.
\<close>

datatype color = BLACK | WHITE | Rgb nat nat nat

datatype error =
    Exception string
  | ZeroDivisionError
  | IndexError
  | ValueError
  | OverflowError
  | RecursionError
  | SystemExit
  | PygameError string

datatype toolkit_call =
    SetMode int int
  | SetCaption string
  | NewSurface int int
  | Fill color
  | GfxPixel int int color
  | DrawEllipse color rat rat rat rat int
  | DrawRect color rat rat rat rat int
  | DrawLine color "rat \<times> rat" "rat \<times> rat" int
  | DrawPolygon color "(rat \<times> rat) list" int
  | BlitText string string int color rat rat
  | BlitPicture nat rat rat rat rat
  | ImageSave string
  | BlitToWindow
  | Flip
  | Sleep rat
  | Subprocess "string list"

record state =
  xmin :: rat
  ymin :: rat
  xmax :: rat
  ymax :: rat
  fontFamily :: string
  fontSize :: int
  canvasWidth :: rat
  canvasHeight :: rat
  pen_radius :: rat
  penColor :: color
  keysTyped :: "string list"
  windowCreated :: bool
  mousePressed :: bool
  mousePos :: "(int \<times> int) option"
  calls :: "toolkit_call list"

text \<open>
  A call either returns a value or raises; in both cases the globals are left in some
  state, which the outcome carries.
\<close>

datatype 'a outcome = Return 'a state | Raise error state

fun post :: "'a outcome \<Rightarrow> state" where
  "post (Return a s) = s"
| "post (Raise e s) = s"

fun raises :: "'a outcome \<Rightarrow> bool" where
  "raises (Return a s) = False"
| "raises (Raise e s) = True"

definition obind :: "'a outcome \<Rightarrow> ('a \<Rightarrow> state \<Rightarrow> 'b outcome) \<Rightarrow> 'b outcome" where
  "obind m f = (case m of Return a s \<Rightarrow> f a s | Raise e s \<Rightarrow> Raise e s)"

definition lift :: "error + 'a \<Rightarrow> state \<Rightarrow> 'a outcome" where
  "lift r s = (case r of Inl e \<Rightarrow> Raise e s | Inr a \<Rightarrow> Return a s)"

definition toolkit :: "toolkit_call \<Rightarrow> state \<Rightarrow> unit outcome" where
  "toolkit c s = Return () (s\<lparr>calls := calls s @ [c]\<rparr>)"

subsection \<open>Default sizes and values (lines 51-62)\<close>

definition BORDER :: rat where "BORDER = 0"
definition DEFAULT_XMIN :: rat where "DEFAULT_XMIN = 0"
definition DEFAULT_XMAX :: rat where "DEFAULT_XMAX = 1"
definition DEFAULT_YMIN :: rat where "DEFAULT_YMIN = 0"
definition DEFAULT_YMAX :: rat where "DEFAULT_YMAX = 1"
definition DEFAULT_CANVAS_SIZE :: int where "DEFAULT_CANVAS_SIZE = 512"
definition DEFAULT_PEN_RADIUS :: rat where "DEFAULT_PEN_RADIUS = 5 / 1000"
definition DEFAULT_PEN_COLOR :: color where "DEFAULT_PEN_COLOR = BLACK"
definition DEFAULT_FONT_FAMILY :: string where "DEFAULT_FONT_FAMILY = ''Helvetica''"
definition DEFAULT_FONT_SIZE :: int where "DEFAULT_FONT_SIZE = 12"

subsection \<open>Arithmetic of the source language\<close>

text \<open>Float division raises on a zero divisor; HOL's \<open>x / 0\<close> would be \<open>0\<close>.\<close>

definition py_div :: "rat \<Rightarrow> rat \<Rightarrow> error + rat" where
  "py_div a b = (if b = 0 then Inl ZeroDivisionError else Inr (a / b))"

text \<open>\<^verbatim>\<open>int(round(x))\<close> in Python 3: to the nearest integer, a tie to the even one.\<close>

definition py_round :: "rat \<Rightarrow> int" where
  "py_round x =
     (let f = \<lfloor>x\<rfloor>; d = x - of_int f
      in if d < 1 / 2 then f
         else if 1 / 2 < d then f + 1
         else if even f then f else f + 1)"

subsection \<open>Scaling between user space and pixels (lines 115-140)\<close>

definition scale_x :: "state \<Rightarrow> rat \<Rightarrow> error + rat" where
  "scale_x s x = py_div (canvasWidth s * (x - xmin s)) (xmax s - xmin s)"

definition scale_y :: "state \<Rightarrow> rat \<Rightarrow> error + rat" where
  "scale_y s y = py_div (canvasHeight s * (ymax s - y)) (ymax s - ymin s)"

definition factor_x :: "state \<Rightarrow> rat \<Rightarrow> error + rat" where
  "factor_x s w = py_div (w * canvasWidth s) \<bar>xmax s - xmin s\<bar>"

definition factor_y :: "state \<Rightarrow> rat \<Rightarrow> error + rat" where
  "factor_y s h = py_div (h * canvasHeight s) \<bar>ymax s - ymin s\<bar>"

definition user_x :: "state \<Rightarrow> rat \<Rightarrow> error + rat" where
  "user_x s x =
     (case py_div (x * (xmax s - xmin s)) (canvasWidth s) of
        Inl e \<Rightarrow> Inl e
      | Inr q \<Rightarrow> Inr (xmin s + q))"

definition user_y :: "state \<Rightarrow> rat \<Rightarrow> error + rat" where
  "user_y s y =
     (case py_div (y * (ymax s - ymin s)) (canvasHeight s) of
        Inl e \<Rightarrow> Inl e
      | Inr q \<Rightarrow> Inr (ymax s - q))"

subsection \<open>Configuration (lines 149-253)\<close>

text \<open>
  The pixel sizes \<open>w\<close> and \<open>h\<close> are integers, as \<^verbatim>\<open>pygame.display.set_mode\<close>
  wants them.
\<close>

definition set_canvas_size :: "int \<Rightarrow> int \<Rightarrow> state \<Rightarrow> unit outcome" where
  "set_canvas_size w h s =
     (if windowCreated s then Raise (Exception ''The stddraw window already was created'') s
      else if w < 1 \<or> h < 1 then Raise (Exception ''width and height must be positive'') s
      else
        obind (toolkit (SetMode w h) (s\<lparr>canvasWidth := of_int w, canvasHeight := of_int h\<rparr>))
          (\<lambda>_ s. obind (toolkit (SetCaption ''stddraw window (r-click to save)'') s)
          (\<lambda>_ s. obind (toolkit (NewSurface w h) s)
          (\<lambda>_ s. obind (toolkit (Fill WHITE) s)
          (\<lambda>_ s. Return () (s\<lparr>windowCreated := True\<rparr>))))))"

definition set_xscale :: "rat \<Rightarrow> rat \<Rightarrow> state \<Rightarrow> unit outcome" where
  "set_xscale mn mx s =
     (if mn \<ge> mx then Raise (Exception ''min must be less than max'') s
      else
        let size = mx - mn
        in Return () (s\<lparr>xmin := mn - BORDER * size, xmax := mx + BORDER * size\<rparr>))"

definition set_yscale :: "rat \<Rightarrow> rat \<Rightarrow> state \<Rightarrow> unit outcome" where
  "set_yscale mn mx s =
     (if mn \<ge> mx then Raise (Exception ''min must be less than max'') s
      else
        let size = mx - mn
        in Return () (s\<lparr>ymin := mn - BORDER * size, ymax := mx + BORDER * size\<rparr>))"

definition set_pen_radius :: "rat \<Rightarrow> state \<Rightarrow> unit outcome" where
  "set_pen_radius r s =
     (if r < 0 then Raise (Exception ''Argument to setPenRadius() must be non-neg'') s
      else Return () (s\<lparr>pen_radius := r * of_int DEFAULT_CANVAS_SIZE\<rparr>))"

definition set_pen_color :: "color \<Rightarrow> state \<Rightarrow> unit outcome" where
  "set_pen_color c s = Return () (s\<lparr>penColor := c\<rparr>)"

definition set_font_family :: "string \<Rightarrow> state \<Rightarrow> unit outcome" where
  "set_font_family f s = Return () (s\<lparr>fontFamily := f\<rparr>)"

definition set_font_size :: "int \<Rightarrow> state \<Rightarrow> unit outcome" where
  "set_font_size n s = Return () (s\<lparr>fontSize := n\<rparr>)"

definition make_sure_window_created :: "state \<Rightarrow> unit outcome" where
  "make_sure_window_created s =
     (if \<not> windowCreated s then
        obind (set_canvas_size DEFAULT_CANVAS_SIZE DEFAULT_CANVAS_SIZE s)
          (\<lambda>_ s. Return () (s\<lparr>windowCreated := True\<rparr>))
      else Return () s)"

subsection \<open>Drawing on the background canvas (lines 260-555)\<close>

text \<open>
  \<^verbatim>\<open>pygame.gfxdraw.pixel\<close> takes its coordinates as 16-bit signed integers and raises
  OverflowError for any other.
\<close>

definition gfx_pixel :: "int \<Rightarrow> int \<Rightarrow> state \<Rightarrow> unit outcome" where
  "gfx_pixel px py s =
     (if - 32768 \<le> px \<and> px \<le> 32767 \<and> - 32768 \<le> py \<and> py \<le> 32767
      then toolkit (GfxPixel px py (penColor s)) s
      else Raise OverflowError s)"

definition pixel :: "rat \<Rightarrow> rat \<Rightarrow> state \<Rightarrow> unit outcome" where
  "pixel x y s =
     obind (make_sure_window_created s)
       (\<lambda>_ s. obind (lift (scale_x s x) s)
       (\<lambda>xs s. obind (lift (scale_y s y) s)
       (\<lambda>xy s. gfx_pixel (py_round xs) (py_round xy) s)))"

definition point :: "rat \<Rightarrow> rat \<Rightarrow> state \<Rightarrow> unit outcome" where
  "point x y s =
     obind (make_sure_window_created s)
       (\<lambda>_ s.
          if pen_radius s \<le> 1 then pixel x y s
          else
            obind (lift (scale_x s x) s)
              (\<lambda>xs s. obind (lift (scale_y s y) s)
              (\<lambda>ys s. toolkit
                 (DrawEllipse (penColor s) (xs - pen_radius s) (ys - pen_radius s)
                    (pen_radius s * 2) (pen_radius s * 2) 0) s)))"

definition circle :: "rat \<Rightarrow> rat \<Rightarrow> rat \<Rightarrow> state \<Rightarrow> unit outcome" where
  "circle x y r s =
     obind (make_sure_window_created s)
       (\<lambda>_ s. obind (lift (factor_x s (2 * r)) s)
       (\<lambda>ws s. obind (lift (factor_y s (2 * r)) s)
       (\<lambda>hs s.
          if ws \<le> 1 \<and> hs \<le> 1 then pixel x y s
          else
            obind (lift (scale_x s x) s)
              (\<lambda>xs s. obind (lift (scale_y s y) s)
              (\<lambda>ys s. toolkit
                 (DrawEllipse (penColor s) (xs - ws / 2) (ys - hs / 2) ws hs
                    (py_round (pen_radius s))) s)))))"

definition filledCircle :: "rat \<Rightarrow> rat \<Rightarrow> rat \<Rightarrow> state \<Rightarrow> unit outcome" where
  "filledCircle x y r s =
     obind (make_sure_window_created s)
       (\<lambda>_ s. obind (lift (factor_x s (2 * r)) s)
       (\<lambda>ws s. obind (lift (factor_y s (2 * r)) s)
       (\<lambda>hs s.
          if ws \<le> 1 \<and> hs \<le> 1 then pixel x y s
          else
            obind (lift (scale_x s x) s)
              (\<lambda>xs s. obind (lift (scale_y s y) s)
              (\<lambda>ys s. toolkit
                 (DrawEllipse (penColor s) (xs - ws / 2) (ys - hs / 2) ws hs 0) s)))))"

definition rectangle :: "rat \<Rightarrow> rat \<Rightarrow> rat \<Rightarrow> rat \<Rightarrow> state \<Rightarrow> unit outcome" where
  "rectangle x y w h s =
     obind (make_sure_window_created s)
       (\<lambda>_ s. obind (lift (factor_x s w) s)
       (\<lambda>ws s. obind (lift (factor_y s h) s)
       (\<lambda>hs s.
          if ws \<le> 1 \<and> hs \<le> 1 then pixel x y s
          else
            obind (lift (scale_x s x) s)
              (\<lambda>xs s. obind (lift (scale_y s y) s)
              (\<lambda>ys s. toolkit
                 (DrawRect (penColor s) xs (ys - hs) ws hs (py_round (pen_radius s))) s)))))"

definition filledRectangle :: "rat \<Rightarrow> rat \<Rightarrow> rat \<Rightarrow> rat \<Rightarrow> state \<Rightarrow> unit outcome" where
  "filledRectangle x y w h s =
     obind (make_sure_window_created s)
       (\<lambda>_ s. obind (lift (factor_x s w) s)
       (\<lambda>ws s. obind (lift (factor_y s h) s)
       (\<lambda>hs s.
          if ws \<le> 1 \<and> hs \<le> 1 then pixel x y s
          else
            obind (lift (scale_x s x) s)
              (\<lambda>xs s. obind (lift (scale_y s y) s)
              (\<lambda>ys s. toolkit (DrawRect (penColor s) xs (ys - hs) ws hs 0) s)))))"

definition square :: "rat \<Rightarrow> rat \<Rightarrow> rat \<Rightarrow> state \<Rightarrow> unit outcome" where
  "square x y r s =
     obind (make_sure_window_created s) (\<lambda>_ s. rectangle (x - r) (y - r) (2 * r) (2 * r) s)"

definition filledSquare :: "rat \<Rightarrow> rat \<Rightarrow> rat \<Rightarrow> state \<Rightarrow> unit outcome" where
  "filledSquare x y r s =
     obind (make_sure_window_created s)
       (\<lambda>_ s. filledRectangle (x - r) (y - r) (2 * r) (2 * r) s)"

text \<open>
  The recursion of \<^verbatim>\<open>_thick_line\<close> is not structural and threads the globals through
  both halves, so it is a partial function: \<open>None\<close> stands for a call that never
  returns.
\<close>

partial_function (option) thick_line ::
  "rat \<Rightarrow> rat \<Rightarrow> rat \<Rightarrow> rat \<Rightarrow> rat \<Rightarrow> state \<Rightarrow> unit outcome option"
where
  "thick_line x0 y0 x1 y1 r s =
     (case scale_x s x0 of Inl e \<Rightarrow> Some (Raise e s) | Inr xs0 \<Rightarrow>
     (case scale_y s y0 of Inl e \<Rightarrow> Some (Raise e s) | Inr ys0 \<Rightarrow>
     (case scale_x s x1 of Inl e \<Rightarrow> Some (Raise e s) | Inr xs1 \<Rightarrow>
     (case scale_y s y1 of Inl e \<Rightarrow> Some (Raise e s) | Inr ys1 \<Rightarrow>
        if \<bar>xs0 - xs1\<bar> < 1 \<and> \<bar>ys0 - ys1\<bar> < 1 then Some (filledCircle x0 y0 r s)
        else
          let xMid = (x0 + x1) / 2; yMid = (y0 + y1) / 2
          in Option.bind (thick_line x0 y0 xMid yMid r s)
               (\<lambda>res. (case res of
                  Raise e s' \<Rightarrow> Some (Raise e s')
                | Return _ s' \<Rightarrow> thick_line xMid yMid x1 y1 r s'))))))"

declare thick_line.simps [code]

definition THICK_LINE_CUTOFF :: rat where "THICK_LINE_CUTOFF = 3"

definition line :: "rat \<Rightarrow> rat \<Rightarrow> rat \<Rightarrow> rat \<Rightarrow> state \<Rightarrow> unit outcome option" where
  "line x0 y0 x1 y1 s =
     (case make_sure_window_created s of
        Raise e s \<Rightarrow> Some (Raise e s)
      | Return _ s \<Rightarrow>
          let lineWidth = pen_radius s * 2;
              lineWidth = (if lineWidth = 0 then 1 else lineWidth)
          in if lineWidth < THICK_LINE_CUTOFF then
               Some (obind (lift (scale_x s x0) s)
                 (\<lambda>x0s s. obind (lift (scale_y s y0) s)
                 (\<lambda>y0s s. obind (lift (scale_x s x1) s)
                 (\<lambda>x1s s. obind (lift (scale_y s y1) s)
                 (\<lambda>y1s s. toolkit
                    (DrawLine (penColor s) (x0s, y0s) (x1s, y1s) (py_round lineWidth)) s)))))
             else thick_line x0 y0 x1 y1 (pen_radius s / of_int DEFAULT_CANVAS_SIZE) s)"

text \<open>
  The two loops of \<^verbatim>\<open>polygon\<close> that scale the coordinates, and the loop that
  pairs them by index; \<^verbatim>\<open>yScaled[i]\<close> raises when \<open>y\<close> is shorter than \<open>x\<close>.
\<close>

fun scale_all :: "(rat \<Rightarrow> error + rat) \<Rightarrow> rat list \<Rightarrow> error + rat list" where
  "scale_all f [] = Inr []"
| "scale_all f (v # vs) =
     (case f v of
        Inl e \<Rightarrow> Inl e
      | Inr w \<Rightarrow> (case scale_all f vs of Inl e \<Rightarrow> Inl e | Inr ws \<Rightarrow> Inr (w # ws)))"

fun pair_up :: "rat list \<Rightarrow> rat list \<Rightarrow> error + (rat \<times> rat) list" where
  "pair_up [] ys = Inr []"
| "pair_up (a # as) [] = Inl IndexError"
| "pair_up (a # as) (b # bs) =
     (case pair_up as bs of Inl e \<Rightarrow> Inl e | Inr ps \<Rightarrow> Inr ((a, b) # ps))"

definition polygon_points :: "rat list \<Rightarrow> rat list \<Rightarrow> error + (rat \<times> rat) list" where
  "polygon_points xScaled yScaled =
     (case pair_up xScaled yScaled of
        Inl e \<Rightarrow> Inl e
      | Inr points \<Rightarrow>
          (case xScaled of
             [] \<Rightarrow> Inl IndexError
           | a # _ \<Rightarrow>
               (case yScaled of
                  [] \<Rightarrow> Inl IndexError
                | b # _ \<Rightarrow> Inr (points @ [(a, b)]))))"

definition polygon :: "rat list \<Rightarrow> rat list \<Rightarrow> state \<Rightarrow> unit outcome" where
  "polygon x y s =
     obind (make_sure_window_created s)
       (\<lambda>_ s. obind (lift (scale_all (scale_x s) x) s)
       (\<lambda>xScaled s. obind (lift (scale_all (scale_y s) y) s)
       (\<lambda>yScaled s. obind (lift (polygon_points xScaled yScaled) s)
       (\<lambda>points s. toolkit
          (DrawPolygon (penColor s) points (py_round (pen_radius s))) s))))"

definition filledPolygon :: "rat list \<Rightarrow> rat list \<Rightarrow> state \<Rightarrow> unit outcome" where
  "filledPolygon x y s =
     obind (make_sure_window_created s)
       (\<lambda>_ s. obind (lift (scale_all (scale_x s) x) s)
       (\<lambda>xScaled s. obind (lift (scale_all (scale_y s) y) s)
       (\<lambda>yScaled s. obind (lift (polygon_points xScaled yScaled) s)
       (\<lambda>points s. toolkit (DrawPolygon (penColor s) points 0) s))))"

definition text_at :: "rat \<Rightarrow> rat \<Rightarrow> string \<Rightarrow> state \<Rightarrow> unit outcome" where
  "text_at x y str s =
     obind (make_sure_window_created s)
       (\<lambda>_ s. obind (lift (scale_x s x) s)
       (\<lambda>xs s. obind (lift (scale_y s y) s)
       (\<lambda>ys s. toolkit
          (BlitText str (fontFamily s) (fontSize s) (penColor s) xs ys) s)))"

text \<open>An object of class \<^verbatim>\<open>picture.Picture\<close>: its size and its surface.\<close>

record picture_obj =
  pic_width :: int
  pic_height :: int
  pic_surface :: nat

definition picture ::
  "picture_obj \<Rightarrow> rat option \<Rightarrow> rat option \<Rightarrow> state \<Rightarrow> unit outcome"
where
  "picture pic x y s =
     obind (make_sure_window_created s)
       (\<lambda>_ s.
          let x = (case x of None \<Rightarrow> (xmax s + xmin s) / 2 | Some v \<Rightarrow> v);
              y = (case y of None \<Rightarrow> (ymax s + ymin s) / 2 | Some v \<Rightarrow> v)
          in obind (lift (scale_x s x) s)
               (\<lambda>xs s. obind (lift (scale_y s y) s)
               (\<lambda>ys s.
                  let ws = of_int (pic_width pic); hs = of_int (pic_height pic)
                  in toolkit
                       (BlitPicture (pic_surface pic) (xs - ws / 2) (ys - hs / 2) ws hs) s)))"

definition clear :: "color \<Rightarrow> state \<Rightarrow> unit outcome" where
  "clear c s = obind (make_sure_window_created s) (\<lambda>_ s. toolkit (Fill c) s)"

text \<open>
  \<^verbatim>\<open>pygame.image.save\<close> can fail; \<open>failure\<close> is what the toolkit answers
  (\<open>None\<close>: the file is written, \<open>Some msg\<close>: it raises \<^verbatim>\<open>pygame.error(msg)\<close>).
\<close>

definition save :: "string \<Rightarrow> string option \<Rightarrow> state \<Rightarrow> unit outcome" where
  "save f failure s =
     obind (make_sure_window_created s)
       (\<lambda>_ s. case failure of
                 None \<Rightarrow> toolkit (ImageSave f) s
               | Some msg \<Rightarrow> Raise (PygameError msg) s)"

subsection \<open>Events, showing and saving (lines 579-709)\<close>

datatype event =
    Quit
  | KeyDown string
  | MouseButtonUp nat
  | MouseButtonDown nat "int \<times> int"
  | OtherEvent

text \<open>
  What the world outside answers during one call: the file name the dialog child
  prints (stripped and decoded), and whether saving the image fails.
\<close>

record env =
  dialog_reply :: string
  save_failure :: "string option"

definition endswith :: "string \<Rightarrow> string \<Rightarrow> bool" where
  "endswith str suffix =
     (length suffix \<le> length str \<and> drop (length str - length suffix) str = suffix)"

definition suffix_message :: string where
  "suffix_message =
     ''File name must end with '' @ [CHR 0x22] @ ''.jpg'' @ [CHR 0x22] @ '' or ''
       @ [CHR 0x22] @ ''.png'' @ [CHR 0x22] @ ''.''"

definition saveToFile :: "env \<Rightarrow> state \<Rightarrow> unit outcome" where
  "saveToFile w s =
     obind (make_sure_window_created s)
       (\<lambda>_ s. obind (toolkit (Subprocess [''getFileName'']) s)
       (\<lambda>_ s.
          let fileName = dialog_reply w
          in if fileName = [] then Return () s
             else if \<not> (endswith fileName ''.jpg'' \<or> endswith fileName ''.png'') then
               toolkit (Subprocess [''reportFileSaveError'', suffix_message]) s
             else
               (case save fileName (save_failure w) s of
                  Return _ s \<Rightarrow> toolkit (Subprocess [''confirmFileSave'']) s
                | Raise (PygameError msg) s \<Rightarrow>
                    toolkit (Subprocess [''reportFileSaveError'', msg]) s
                | Raise e s \<Rightarrow> Raise e s)))"

fun handle_events :: "env \<Rightarrow> event list \<Rightarrow> state \<Rightarrow> unit outcome" where
  "handle_events w [] s = Return () s"
| "handle_events w (Quit # evs) s = Raise SystemExit s"
| "handle_events w (KeyDown u # evs) s =
     handle_events w evs (s\<lparr>keysTyped := [u] @ keysTyped s\<rparr>)"
| "handle_events w (MouseButtonUp button # evs) s =
     (if button = 3 then
        (case saveToFile w s of
           Return _ s \<Rightarrow> handle_events w evs s
         | Raise e s \<Rightarrow> Raise e s)
      else handle_events w evs s)"
| "handle_events w (MouseButtonDown button pos # evs) s =
     (if button = 1 then
        handle_events w evs (s\<lparr>mousePressed := True, mousePos := Some pos\<rparr>)
      else handle_events w evs s)"
| "handle_events w (OtherEvent # evs) s = handle_events w evs s"

text \<open>\<open>events\<close> is what \<^verbatim>\<open>pygame.event.get()\<close> returns at this poll.\<close>

definition checkForEvents :: "env \<Rightarrow> event list \<Rightarrow> state \<Rightarrow> unit outcome" where
  "checkForEvents w events s =
     obind (make_sure_window_created s) (\<lambda>_ s. handle_events w events s)"

definition show_canvas :: "env \<Rightarrow> event list \<Rightarrow> state \<Rightarrow> unit outcome" where
  "show_canvas w events s =
     obind (toolkit BlitToWindow s)
       (\<lambda>_ s. obind (toolkit Flip s)
       (\<lambda>_ s. checkForEvents w events s))"

definition QUANTUM :: rat where "QUANTUM = 1 / 10"

text \<open>
  \<^verbatim>\<open>time.sleep\<close> refuses a negative length.
\<close>

definition sleep :: "rat \<Rightarrow> state \<Rightarrow> unit outcome" where
  "sleep sec s = (if sec < 0 then Raise ValueError s else toolkit (Sleep sec) s)"

text \<open>
  The polls of one call see the batches of events in \<open>polls\<close>, one batch each, and
  no event once the list is used up. The loop of \<^verbatim>\<open>_showAndWaitForever\<close> ends only
  by an exception: when the batches are used up without one, the call never returns.
\<close>

fun wait_forever :: "env \<Rightarrow> event list list \<Rightarrow> state \<Rightarrow> unit outcome option" where
  "wait_forever w [] s = None"
| "wait_forever w (events # polls) s =
     (case obind (sleep QUANTUM s) (\<lambda>_ s. checkForEvents w events s) of
        Raise e s \<Rightarrow> Some (Raise e s)
      | Return _ s \<Rightarrow> wait_forever w polls s)"

definition showAndWaitForever ::
  "env \<Rightarrow> event list list \<Rightarrow> state \<Rightarrow> unit outcome option"
where
  "showAndWaitForever w polls s =
     (case obind (make_sure_window_created s)
             (\<lambda>_ s. show_canvas w (case polls of [] \<Rightarrow> [] | b # _ \<Rightarrow> b) s) of
        Raise e s \<Rightarrow> Some (Raise e s)
      | Return _ s \<Rightarrow> wait_forever w (tl polls) s)"

function wait_loop ::
  "env \<Rightarrow> rat \<Rightarrow> rat \<Rightarrow> event list list \<Rightarrow> state \<Rightarrow> unit outcome"
where
  "wait_loop w secondsWaited sec polls s =
     (if secondsWaited < sec then
        (case sleep QUANTUM s of
           Raise e s \<Rightarrow> Raise e s
         | Return _ s \<Rightarrow>
             (case checkForEvents w (case polls of [] \<Rightarrow> [] | b # _ \<Rightarrow> b) s of
                Raise e s \<Rightarrow> Raise e s
              | Return _ s \<Rightarrow> wait_loop w (secondsWaited + QUANTUM) sec (tl polls) s))
      else Return () s)"
  by pat_completeness auto
termination
proof (relation "measure (\<lambda>(w, secondsWaited, sec, polls, s). nat \<lceil>(sec - secondsWaited) * 10\<rceil>)")
  show "wf (measure (\<lambda>(w, secondsWaited, sec, polls, s). nat \<lceil>(sec - secondsWaited) * 10\<rceil>))"
    by simp
next
  fix w :: env and secondsWaited sec :: rat and polls :: "event list list"
    and s y2 :: state
  assume less: "secondsWaited < sec"
  define m where "m = \<lceil>(sec - secondsWaited) * 10\<rceil>"
  have pos: "0 < m"
    unfolding m_def using less by simp
  have "(sec - (secondsWaited + QUANTUM)) * 10 = (sec - secondsWaited) * 10 - 1"
    by (simp add: QUANTUM_def algebra_simps)
  then have "\<lceil>(sec - (secondsWaited + QUANTUM)) * 10\<rceil> = m - 1"
    unfolding m_def by (simp only: ceiling_diff_one)
  then have "nat \<lceil>(sec - (secondsWaited + QUANTUM)) * 10\<rceil> < nat m"
    using pos by simp
  then show
    "((w, secondsWaited + QUANTUM, sec, tl polls, y2), (w, secondsWaited, sec, polls, s))
       \<in> measure (\<lambda>(w, secondsWaited, sec, polls, s). nat \<lceil>(sec - secondsWaited) * 10\<rceil>)"
    unfolding m_def by (simp only: in_measure prod.case)
qed

text \<open>
  \<open>msec = None\<close> is the default, infinity. \<^verbatim>\<open>_showAndWaitForever()\<close> ends only by an
  exception, so nothing of \<^verbatim>\<open>show\<close> runs after it.
\<close>

definition show_for ::
  "rat option \<Rightarrow> env \<Rightarrow> event list list \<Rightarrow> state \<Rightarrow> unit outcome option"
where
  "show_for msec w polls s =
     (case msec of
        None \<Rightarrow> showAndWaitForever w polls s
      | Some ms \<Rightarrow>
          Some
            (obind (make_sure_window_created s)
               (\<lambda>_ s. obind (show_canvas w (case polls of [] \<Rightarrow> [] | b # _ \<Rightarrow> b) s)
               (\<lambda>_ s. obind
                  (checkForEvents w (case tl polls of [] \<Rightarrow> [] | b # _ \<Rightarrow> b) s)
               (\<lambda>_ s.
                  let sec = ms / 1000
                  in if sec < QUANTUM then sleep sec s
                     else wait_loop w 0 sec (tl (tl polls)) s)))))"

subsection \<open>Keys and mouse (lines 716-777)\<close>

definition hasNextKeyTyped :: "state \<Rightarrow> bool outcome" where
  "hasNextKeyTyped s = Return (keysTyped s \<noteq> []) s"

text \<open>\<^verbatim>\<open>list.pop()\<close> takes the last element and raises IndexError on an empty list.\<close>

definition nextKeyTyped :: "state \<Rightarrow> string outcome" where
  "nextKeyTyped s =
     (case keysTyped s of
        [] \<Rightarrow> Raise IndexError s
      | _ # _ \<Rightarrow> Return (last (keysTyped s)) (s\<lparr>keysTyped := butlast (keysTyped s)\<rparr>))"

definition mousePressed_fn :: "state \<Rightarrow> bool outcome" where
  "mousePressed_fn s =
     (if mousePressed s then Return True (s\<lparr>mousePressed := False\<rparr>) else Return False s)"

text \<open>
  \<^verbatim>\<open>if _mousePos:\<close> tests a value that is \<^verbatim>\<open>None\<close> or a pair; a pair is true
  whatever its components.
\<close>

definition no_click :: error where
  "no_click = Exception (''Can'' @ [CHR 0x27] @ ''t determine mouse position if a click hasn''
     @ [CHR 0x27] @ ''t happened'')"

definition mouseX :: "state \<Rightarrow> rat outcome" where
  "mouseX s =
     (case mousePos s of
        Some p \<Rightarrow> lift (user_x s (of_int (fst p))) s
      | None \<Rightarrow> Raise no_click s)"

definition mouseY :: "state \<Rightarrow> rat outcome" where
  "mouseY s =
     (case mousePos s of
        Some p \<Rightarrow> lift (user_y s (of_int (snd p))) s
      | None \<Rightarrow> Raise no_click s)"

subsection \<open>Loading the module (lines 64-91 and 788-790)\<close>

text \<open>
  The module-level assignments, then the three calls that close the module's
  initialisation. The five globals that are still \<^verbatim>\<open>None\<close> before those calls are
  given \<open>0\<close> in \<open>globals_at_load\<close>; the calls overwrite each of them before any
  function of the module can be called.
\<close>

definition globals_at_load :: state where
  "globals_at_load =
     \<lparr>xmin = 0, ymin = 0, xmax = 0, ymax = 0,
      fontFamily = DEFAULT_FONT_FAMILY, fontSize = DEFAULT_FONT_SIZE,
      canvasWidth = of_int DEFAULT_CANVAS_SIZE, canvasHeight = of_int DEFAULT_CANVAS_SIZE,
      pen_radius = 0, penColor = DEFAULT_PEN_COLOR, keysTyped = [],
      windowCreated = False, mousePressed = False, mousePos = None, calls = []\<rparr>"

definition load_module :: "state \<Rightarrow> unit outcome" where
  "load_module s =
     obind (set_xscale DEFAULT_XMIN DEFAULT_XMAX s)
       (\<lambda>_ s. obind (set_yscale DEFAULT_YMIN DEFAULT_YMAX s)
       (\<lambda>_ s. set_pen_radius DEFAULT_PEN_RADIUS s))"

definition initial_state :: state where
  "initial_state = post (load_module globals_at_load)"

subsection \<open>The public operations\<close>

datatype op =
    SetCanvasSize int int
  | SetXscale rat rat
  | SetYscale rat rat
  | SetPenRadius rat
  | SetPenColor color
  | SetFontFamily string
  | SetFontSize int
  | Point rat rat
  | Line rat rat rat rat
  | Circle rat rat rat
  | FilledCircle rat rat rat
  | Rectangle rat rat rat rat
  | FilledRectangle rat rat rat rat
  | Square rat rat rat
  | FilledSquare rat rat rat
  | Polygon "rat list" "rat list"
  | FilledPolygon "rat list" "rat list"
  | Text rat rat string
  | Picture picture_obj "rat option" "rat option"
  | Clear color
  | Save string "string option"
  | Show "rat option" env "event list list"
  | HasNextKeyTyped
  | NextKeyTyped
  | MousePressed
  | MouseX
  | MouseY

text \<open>
  The globals after a call that comes back, by a return or by an exception (which a
  client may catch and go on); \<open>None\<close> when the call never comes back.
\<close>

fun exec :: "op \<Rightarrow> state \<Rightarrow> state option" where
  "exec (SetCanvasSize w h) s = Some (post (set_canvas_size w h s))"
| "exec (SetXscale mn mx) s = Some (post (set_xscale mn mx s))"
| "exec (SetYscale mn mx) s = Some (post (set_yscale mn mx s))"
| "exec (SetPenRadius r) s = Some (post (set_pen_radius r s))"
| "exec (SetPenColor c) s = Some (post (set_pen_color c s))"
| "exec (SetFontFamily f) s = Some (post (set_font_family f s))"
| "exec (SetFontSize n) s = Some (post (set_font_size n s))"
| "exec (Point x y) s = Some (post (point x y s))"
| "exec (Line x0 y0 x1 y1) s = map_option post (line x0 y0 x1 y1 s)"
| "exec (Circle x y r) s = Some (post (circle x y r s))"
| "exec (FilledCircle x y r) s = Some (post (filledCircle x y r s))"
| "exec (Rectangle x y w h) s = Some (post (rectangle x y w h s))"
| "exec (FilledRectangle x y w h) s = Some (post (filledRectangle x y w h s))"
| "exec (Square x y r) s = Some (post (square x y r s))"
| "exec (FilledSquare x y r) s = Some (post (filledSquare x y r s))"
| "exec (Polygon x y) s = Some (post (polygon x y s))"
| "exec (FilledPolygon x y) s = Some (post (filledPolygon x y s))"
| "exec (Text x y str) s = Some (post (text_at x y str s))"
| "exec (Picture pic x y) s = Some (post (picture pic x y s))"
| "exec (Clear c) s = Some (post (clear c s))"
| "exec (Save f failure) s = Some (post (save f failure s))"
| "exec (Show msec w polls) s = map_option post (show_for msec w polls s)"
| "exec HasNextKeyTyped s = Some (post (hasNextKeyTyped s))"
| "exec NextKeyTyped s = Some (post (nextKeyTyped s))"
| "exec MousePressed s = Some (post (mousePressed_fn s))"
| "exec MouseX s = Some (post (mouseX s))"
| "exec MouseY s = Some (post (mouseY s))"

fun run :: "op list \<Rightarrow> state \<Rightarrow> state option" where
  "run [] s = Some s"
| "run (c # cs) s = (case exec c s of None \<Rightarrow> None | Some s' \<Rightarrow> run cs s')"

subsection \<open>Notions the properties are stated with\<close>

text \<open>The keys of a batch of events, in the order they were typed.\<close>

fun keys_of :: "event list \<Rightarrow> string list" where
  "keys_of [] = []"
| "keys_of (KeyDown u # evs) = u # keys_of evs"
| "keys_of (ev # evs) = keys_of evs"

text \<open>The position of the latest press of the left button in a batch of events.\<close>

fun last_click :: "event list \<Rightarrow> (int \<times> int) option" where
  "last_click [] = None"
| "last_click (ev # evs) =
     (case last_click evs of
        Some p \<Rightarrow> Some p
      | None \<Rightarrow>
          (case ev of
             MouseButtonDown button pos \<Rightarrow> if button = 1 then Some pos else None
           | _ \<Rightarrow> None))"

text \<open>A client that calls \<^verbatim>\<open>nextKeyTyped()\<close> \<open>n\<close> times and collects what it gets.\<close>

fun next_keys :: "nat \<Rightarrow> state \<Rightarrow> string list outcome" where
  "next_keys 0 s = Return [] s"
| "next_keys (Suc n) s =
     obind (nextKeyTyped s) (\<lambda>k s. obind (next_keys n s) (\<lambda>ks s. Return (k # ks) s))"

subsection \<open>Auxiliary notions of the proofs\<close>

text \<open>
  What no drawing, event or query function changes: the scale bounds and the pen
  radius stay, a created window stays created, and the canvas size stays unless the
  window is created on the way with the default size.
\<close>

definition stable :: "state \<Rightarrow> state \<Rightarrow> bool" where
  "stable s s' =
     (xmin s' = xmin s \<and> ymin s' = ymin s \<and> xmax s' = xmax s \<and> ymax s' = ymax s
      \<and> pen_radius s' = pen_radius s
      \<and> (windowCreated s \<longrightarrow> windowCreated s')
      \<and> (canvasWidth s' = canvasWidth s \<and> canvasHeight s' = canvasHeight s
         \<or> \<not> windowCreated s \<and> canvasWidth s' = 512 \<and> canvasHeight s' = 512))"

text \<open>The canvas size that \<^verbatim>\<open>set_canvas_size\<close> admits.\<close>

definition canvas_inv :: "state \<Rightarrow> bool" where
  "canvas_inv s = (1 \<le> canvasWidth s \<and> 1 \<le> canvasHeight s)"

subsection \<open>Example inputs and states\<close>

definition window_state :: state where
  "window_state = post (set_canvas_size 100 50 initial_state)"

definition click_run :: "op list" where
  "click_run =
     [Show (Some 0) \<lparr>dialog_reply = ''a.png'', save_failure = None\<rparr>
        [[KeyDown ''a'', MouseButtonDown 1 (128, 384), MouseButtonUp 3]]]"

definition clicked_state :: state where
  "clicked_state =
     \<lparr>xmin = 0, ymin = 0, xmax = 1, ymax = 1, fontFamily = ''Helvetica'',
      fontSize = 12, canvasWidth = 512, canvasHeight = 512,
      pen_radius = 64 / 25, penColor = BLACK, keysTyped = [''a''],
      windowCreated = True, mousePressed = True, mousePos = Some (128, 384),
      calls =
        [SetMode 512 512, SetCaption ''stddraw window (r-click to save)'',
         NewSurface 512 512, Fill WHITE, BlitToWindow, Flip,
         Subprocess [''getFileName''], ImageSave ''a.png'',
         Subprocess [''confirmFileSave''], Sleep 0]\<rparr>"

definition thin_pen_state :: state where
  "thin_pen_state = post (set_pen_radius 0 initial_state)"

definition opened_state :: state where
  "opened_state = post (make_sure_window_created initial_state)"

definition pen8_state :: state where
  "pen8_state = post (set_pen_radius (1 / 128) initial_state)"

definition narrow_state :: state where
  "narrow_state = post (set_canvas_size 512 512 pen8_state)"

definition wide_state :: state where
  "wide_state = post (set_canvas_size 1024 1024 pen8_state)"

definition typed_events :: "event list" where
  "typed_events = [KeyDown ''a'', MouseButtonDown 1 (1, 1), KeyDown ''b'']"

section \<open>The numeric functions over IEEE doubles\<close>

text \<open>
  A Python float is an IEEE 754 double: a rational \<open>m * 2 ^ p\<close> with \<open>\<bar>m\<bar> < 2 ^ 53\<close> and
  \<open>- 1074 \<le> p \<le> 971\<close>, an infinity, or NaN. Every operation computes the exact result
  and rounds it to the nearest double, a tie to the one with the even mantissa; a
  result of magnitude \<open>2 ^ 1024\<close> or more after rounding is an infinity. The two zeros
  are one value here: they compare equal, and Python raises on every division by
  either, so no function below can tell them apart.
\<close>

datatype pyfloat = Finite rat | PosInf | NegInf | NaN

text \<open>
  \<open>ilog2 x\<close> is the exponent \<open>e\<close> with \<open>2 ^ e \<le> x < 2 ^ (e + 1)\<close>, for \<open>x > 0\<close>;
  \<open>round_double\<close> rounds a rational to a double.
\<close>

definition pow2 :: "int \<Rightarrow> rat" where
  "pow2 e = power_int 2 e"

definition ilog2 :: "rat \<Rightarrow> int" where
  "ilog2 x =
     (let (a, b) = quotient_of x; d = bitlen a - bitlen b
      in if pow2 d \<le> x then d else d - 1)"

definition round_double :: "rat \<Rightarrow> pyfloat" where
  "round_double x =
     (if x = 0 then Finite 0
      else
        let e = ilog2 \<bar>x\<bar>;
            p = max (e - 52) (- 1074);
            m = py_round (\<bar>x\<bar> / pow2 p);
            y = of_int m * pow2 p
        in if pow2 1024 \<le> y then (if 0 < x then PosInf else NegInf)
           else Finite (if 0 < x then y else - y))"

text \<open>
  Arithmetic and comparison. A comparison with NaN is false; Python's float division
  raises on a zero divisor, \<open>fquot\<close> is the quotient for the other divisors.
\<close>

fun fneg :: "pyfloat \<Rightarrow> pyfloat" where
  "fneg (Finite a) = Finite (- a)"
| "fneg PosInf = NegInf"
| "fneg NegInf = PosInf"
| "fneg NaN = NaN"

fun fadd :: "pyfloat \<Rightarrow> pyfloat \<Rightarrow> pyfloat" where
  "fadd (Finite a) (Finite b) = round_double (a + b)"
| "fadd NaN b = NaN"
| "fadd a NaN = NaN"
| "fadd PosInf NegInf = NaN"
| "fadd NegInf PosInf = NaN"
| "fadd PosInf b = PosInf"
| "fadd NegInf b = NegInf"
| "fadd (Finite a) b = b"

definition fsub :: "pyfloat \<Rightarrow> pyfloat \<Rightarrow> pyfloat" where
  "fsub a b = fadd a (fneg b)"

fun fsign :: "pyfloat \<Rightarrow> int" where
  "fsign (Finite a) = (if 0 < a then 1 else if a < 0 then - 1 else 0)"
| "fsign PosInf = 1"
| "fsign NegInf = - 1"
| "fsign NaN = 0"

fun fmul :: "pyfloat \<Rightarrow> pyfloat \<Rightarrow> pyfloat" where
  "fmul (Finite a) (Finite b) = round_double (a * b)"
| "fmul NaN b = NaN"
| "fmul a NaN = NaN"
| "fmul a b =
     (if fsign a * fsign b = 0 then NaN
      else if 0 < fsign a * fsign b then PosInf else NegInf)"

fun fquot :: "pyfloat \<Rightarrow> pyfloat \<Rightarrow> pyfloat" where
  "fquot (Finite a) (Finite b) = round_double (a / b)"
| "fquot NaN b = NaN"
| "fquot a NaN = NaN"
| "fquot (Finite a) b = Finite 0"
| "fquot a (Finite b) = (if 0 < fsign a * fsign (Finite b) then PosInf else NegInf)"
| "fquot a b = NaN"

definition py_fdiv :: "pyfloat \<Rightarrow> pyfloat \<Rightarrow> error + pyfloat" where
  "py_fdiv a b = (if b = Finite 0 then Inl ZeroDivisionError else Inr (fquot a b))"

fun flt :: "pyfloat \<Rightarrow> pyfloat \<Rightarrow> bool" where
  "flt (Finite a) (Finite b) = (a < b)"
| "flt NaN b = False"
| "flt a NaN = False"
| "flt a NegInf = False"
| "flt PosInf b = False"
| "flt a b = True"

fun fle :: "pyfloat \<Rightarrow> pyfloat \<Rightarrow> bool" where
  "fle (Finite a) (Finite b) = (a \<le> b)"
| "fle NaN b = False"
| "fle a NaN = False"
| "fle NegInf b = True"
| "fle a PosInf = True"
| "fle a b = False"

fun fabs :: "pyfloat \<Rightarrow> pyfloat" where
  "fabs (Finite a) = Finite \<bar>a\<bar>"
| "fabs NaN = NaN"
| "fabs a = PosInf"


definition fge :: "pyfloat \<Rightarrow> pyfloat \<Rightarrow> bool" where
  "fge a b = fle b a"

subsection \<open>The numeric globals and the functions that compute with them\<close>

text \<open>
  The globals that hold floats, and the same source functions as above with the
  program's arithmetic: the setters of lines 176-219 (returning the updated globals or
  the exception), the scaling of lines 115-120, and the recursion of
  \<^verbatim>\<open>_thick_line\<close> (lines 298-313).
\<close>

record fglobals =
  fxmin :: pyfloat
  fymin :: pyfloat
  fxmax :: pyfloat
  fymax :: pyfloat
  fcanvasWidth :: pyfloat
  fcanvasHeight :: pyfloat
  fpen_radius :: pyfloat

definition BORDER_f :: pyfloat where "BORDER_f = Finite 0"

definition set_xscale_f :: "pyfloat \<Rightarrow> pyfloat \<Rightarrow> fglobals \<Rightarrow> error + fglobals" where
  "set_xscale_f mn mx g =
     (if fge mn mx then Inl (Exception ''min must be less than max'')
      else
        let size = fsub mx mn
        in Inr (g\<lparr>fxmin := fsub mn (fmul BORDER_f size),
                 fxmax := fadd mx (fmul BORDER_f size)\<rparr>))"

definition set_yscale_f :: "pyfloat \<Rightarrow> pyfloat \<Rightarrow> fglobals \<Rightarrow> error + fglobals" where
  "set_yscale_f mn mx g =
     (if fge mn mx then Inl (Exception ''min must be less than max'')
      else
        let size = fsub mx mn
        in Inr (g\<lparr>fymin := fsub mn (fmul BORDER_f size),
                 fymax := fadd mx (fmul BORDER_f size)\<rparr>))"

definition set_pen_radius_f :: "pyfloat \<Rightarrow> fglobals \<Rightarrow> error + fglobals" where
  "set_pen_radius_f r g =
     (if flt r (Finite 0) then Inl (Exception ''Argument to setPenRadius() must be non-neg'')
      else Inr (g\<lparr>fpen_radius := fmul r (Finite 512)\<rparr>))"

text \<open>
  The numeric globals after loading: \<^verbatim>\<open>set_xscale()\<close>, \<^verbatim>\<open>set_yscale()\<close> and
  \<^verbatim>\<open>set_pen_radius()\<close> with the defaults, the canvas \<^verbatim>\<open>float(512)\<close>.
\<close>

definition loaded_f :: fglobals where
  "loaded_f =
     \<lparr>fxmin = Finite 0, fymin = Finite 0, fxmax = Finite 1, fymax = Finite 1,
      fcanvasWidth = Finite 512, fcanvasHeight = Finite 512,
      fpen_radius = fmul (round_double (5 / 1000)) (Finite 512)\<rparr>"

definition scale_x_f :: "fglobals \<Rightarrow> pyfloat \<Rightarrow> error + pyfloat" where
  "scale_x_f g x = py_fdiv (fmul (fcanvasWidth g) (fsub x (fxmin g))) (fsub (fxmax g) (fxmin g))"

definition scale_y_f :: "fglobals \<Rightarrow> pyfloat \<Rightarrow> error + pyfloat" where
  "scale_y_f g y = py_fdiv (fmul (fcanvasHeight g) (fsub (fymax g) y)) (fsub (fymax g) (fymin g))"

text \<open>
  The interpreter bounds the depth of recursion: \<open>depth\<close> is the number of frames
  \<^verbatim>\<open>_thick_line\<close> may still use, and a call with none left raises RecursionError. The
  result is the list of the calls \<^verbatim>\<open>filledCircle(x, y, r)\<close> made, in order.
\<close>

fun thick_line_f ::
  "nat \<Rightarrow> fglobals \<Rightarrow> pyfloat \<Rightarrow> pyfloat \<Rightarrow> pyfloat \<Rightarrow> pyfloat \<Rightarrow> pyfloat
     \<Rightarrow> error + (pyfloat \<times> pyfloat \<times> pyfloat) list"
where
  "thick_line_f 0 g x0 y0 x1 y1 r = Inl RecursionError"
| "thick_line_f (Suc depth) g x0 y0 x1 y1 r =
     (case scale_x_f g x0 of Inl e \<Rightarrow> Inl e | Inr xs0 \<Rightarrow>
     (case scale_y_f g y0 of Inl e \<Rightarrow> Inl e | Inr ys0 \<Rightarrow>
     (case scale_x_f g x1 of Inl e \<Rightarrow> Inl e | Inr xs1 \<Rightarrow>
     (case scale_y_f g y1 of Inl e \<Rightarrow> Inl e | Inr ys1 \<Rightarrow>
        if flt (fabs (fsub xs0 xs1)) (Finite 1) \<and> flt (fabs (fsub ys0 ys1)) (Finite 1)
        then Inr [(x0, y0, r)]
        else
          let xMid = fquot (fadd x0 x1) (Finite 2); yMid = fquot (fadd y0 y1) (Finite 2)
          in (case thick_line_f depth g x0 y0 xMid yMid r of
                Inl e \<Rightarrow> Inl e
              | Inr first \<Rightarrow>
                  (case thick_line_f depth g xMid yMid x1 y1 r of
                     Inl e \<Rightarrow> Inl e
                   | Inr second \<Rightarrow> Inr (first @ second)))))))"

text \<open>The range invariants, as comparisons of floats.\<close>

definition range_invariant_f :: "fglobals \<Rightarrow> bool" where
  "range_invariant_f g =
     (flt (fxmin g) (fxmax g) \<and> flt (fymin g) (fymax g) \<and> fge (fpen_radius g) (Finite 0))"

text \<open>The numeric globals with the x-scale from \<open>2 ^ 53\<close> to \<open>2 ^ 53 + 4\<close>.\<close>

definition shifted_f :: fglobals where
  "shifted_f = loaded_f\<lparr>fxmin := Finite (2 ^ 53), fxmax := Finite (2 ^ 53 + 4)\<rparr>"

section \<open>Properties\<close>

subsection \<open>The state after loading\<close>

lemma initial_state_eq:
  "initial_state =
     \<lparr>xmin = 0, ymin = 0, xmax = 1, ymax = 1,
      fontFamily = ''Helvetica'', fontSize = 12,
      canvasWidth = 512, canvasHeight = 512,
      pen_radius = 64 / 25, penColor = BLACK, keysTyped = [],
      windowCreated = False, mousePressed = False, mousePos = None, calls = []\<rparr>"
  by (simp add: initial_state_def load_module_def globals_at_load_def obind_def
      set_xscale_def set_yscale_def set_pen_radius_def BORDER_def DEFAULT_XMIN_def
      DEFAULT_XMAX_def DEFAULT_YMIN_def DEFAULT_YMAX_def DEFAULT_PEN_RADIUS_def
      DEFAULT_CANVAS_SIZE_def DEFAULT_FONT_FAMILY_def DEFAULT_FONT_SIZE_def
      DEFAULT_PEN_COLOR_def)

subsection \<open>Checks of the setters\<close>

text \<open>
  Claim C3. \<^verbatim>\<open>set_pen_radius(r)\<close> raises exactly when \<open>r < 0\<close>, and when it raises
  the globals (and so the stored pen radius) are what they were.
\<close>

theorem pen_radius_checks:
  "(raises (set_pen_radius r s) \<longleftrightarrow> r < 0)
   \<and> (r < 0 \<longrightarrow> post (set_pen_radius r s) = s)"
  by (simp add: set_pen_radius_def)

theorem pen_radius_checks_witness:
  "raises (set_pen_radius (-1) initial_state)
   \<and> post (set_pen_radius (-1) initial_state) = initial_state
   \<and> \<not> raises (set_pen_radius 0 initial_state)"
  using pen_radius_checks [of "-1" initial_state] pen_radius_checks [of 0 initial_state]
  by simp

subsection \<open>User space and pixels\<close>

text \<open>
  Claim C2. With \<open>xmin < xmax\<close> and a positive canvas width, neither mapping raises
  and they are inverse to each other: \<^verbatim>\<open>_user_x(_scale_x(x)) = x\<close> for every \<open>x\<close>
  and \<^verbatim>\<open>_scale_x(_user_x(a)) = a\<close> for every pixel coordinate \<open>a\<close>; the same holds for the \<open>y\<close>
  mappings with \<open>ymin < ymax\<close> and a positive canvas height.
\<close>

theorem scale_user_inverse:
  "(xmin s < xmax s \<and> 0 < canvasWidth s \<longrightarrow>
      (\<exists>p. scale_x s x = Inr p \<and> user_x s p = Inr x)
      \<and> (\<exists>u. user_x s a = Inr u \<and> scale_x s u = Inr a))
   \<and> (ymin s < ymax s \<and> 0 < canvasHeight s \<longrightarrow>
      (\<exists>q. scale_y s y = Inr q \<and> user_y s q = Inr y)
      \<and> (\<exists>v. user_y s b = Inr v \<and> scale_y s v = Inr b))"
  by (simp add: scale_x_def user_x_def scale_y_def user_y_def py_div_def)

theorem scale_user_inverse_witness:
  "xmin (initial_state\<lparr>xmin := -1, xmax := 3\<rparr>) < xmax (initial_state\<lparr>xmin := -1, xmax := 3\<rparr>)
   \<and> 0 < canvasWidth (initial_state\<lparr>xmin := -1, xmax := 3\<rparr>)
   \<and> scale_x (initial_state\<lparr>xmin := -1, xmax := 3\<rparr>) (1 / 3) = Inr (512 / 3)
   \<and> user_x (initial_state\<lparr>xmin := -1, xmax := 3\<rparr>) (512 / 3) = Inr (1 / 3)
   \<and> ymin (initial_state\<lparr>ymin := -1, ymax := 3\<rparr>) < ymax (initial_state\<lparr>ymin := -1, ymax := 3\<rparr>)
   \<and> 0 < canvasHeight (initial_state\<lparr>ymin := -1, ymax := 3\<rparr>)
   \<and> user_y (initial_state\<lparr>ymin := -1, ymax := 3\<rparr>) 100 = Inr (71 / 32)
   \<and> scale_y (initial_state\<lparr>ymin := -1, ymax := 3\<rparr>) (71 / 32) = Inr 100"
  using scale_user_inverse [of "initial_state\<lparr>xmin := -1, xmax := 3\<rparr>" "1 / 3" 0 0 0]
    scale_user_inverse [of "initial_state\<lparr>ymin := -1, ymax := 3\<rparr>" 0 0 0 100]
  by (simp add: initial_state_eq scale_x_def user_x_def scale_y_def user_y_def py_div_def)

subsection \<open>What the drawing, event and query functions leave alone\<close>

lemma obind_simps [simp]:
  "obind (Return a s) f = f a s"
  "obind (Raise e s) f = Raise e s"
  by (simp_all add: obind_def)

lemma lift_simps [simp]:
  "lift (Inr a) s = Return a s"
  "lift (Inl e) s = Raise e s"
  by (simp_all add: lift_def)

lemma stable_refl [simp]: "stable s s"
  by (simp add: stable_def)

lemma stable_trans: "stable s s1 \<Longrightarrow> stable s1 s2 \<Longrightarrow> stable s s2"
  unfolding stable_def by auto

lemma stable_obind:
  assumes "stable s (post m)" and "\<And>a s1. stable s1 (post (f a s1))"
  shows "stable s (post (obind m f))"
proof (cases m)
  case (Return a s1)
  with assms(1) have "stable s s1" by simp
  moreover have "stable s1 (post (f a s1))" by (rule assms(2))
  ultimately show ?thesis using Return by (simp add: stable_trans)
next
  case (Raise e s1)
  with assms(1) show ?thesis by simp
qed

lemma stable_lift [simp]: "stable s (post (lift r s))"
  by (cases r) simp_all

lemma stable_toolkit [simp]: "stable s (post (toolkit c s))"
  by (simp add: toolkit_def stable_def)

lemma make_sure_window_created_eq:
  "make_sure_window_created s =
     Return ()
       (if windowCreated s then s
        else s\<lparr>canvasWidth := 512, canvasHeight := 512,
               calls := calls s @ [SetMode 512 512,
                 SetCaption ''stddraw window (r-click to save)'', NewSurface 512 512,
                 Fill WHITE],
               windowCreated := True\<rparr>)"
  by (simp add: make_sure_window_created_def set_canvas_size_def toolkit_def
      DEFAULT_CANVAS_SIZE_def)

lemma stable_make_sure [simp]: "stable s (post (make_sure_window_created s))"
  by (simp add: make_sure_window_created_eq stable_def)

lemma stable_gfx_pixel [simp]: "stable s (post (gfx_pixel px py s))"
  by (simp add: gfx_pixel_def)

lemma stable_pixel [simp]: "stable s (post (pixel x y s))"
  unfolding pixel_def
  by (intro stable_obind stable_make_sure stable_lift stable_toolkit stable_gfx_pixel)

lemma stable_if:
  "(c \<Longrightarrow> stable s (post a)) \<Longrightarrow> (\<not> c \<Longrightarrow> stable s (post b)) \<Longrightarrow>
   stable s (post (if c then a else b))"
  by simp

lemmas stable_intros =
  stable_obind stable_if stable_make_sure stable_lift stable_toolkit stable_pixel

lemma stable_point [simp]: "stable s (post (point x y s))"
  unfolding point_def by (intro stable_intros)

lemma stable_circle [simp]: "stable s (post (circle x y r s))"
  unfolding circle_def by (intro stable_intros)

lemma stable_filledCircle [simp]: "stable s (post (filledCircle x y r s))"
  unfolding filledCircle_def by (intro stable_intros)

lemma stable_rectangle [simp]: "stable s (post (rectangle x y w h s))"
  unfolding rectangle_def by (intro stable_intros)

lemma stable_filledRectangle [simp]: "stable s (post (filledRectangle x y w h s))"
  unfolding filledRectangle_def by (intro stable_intros)

lemma stable_square [simp]: "stable s (post (square x y r s))"
  unfolding square_def by (intro stable_intros stable_rectangle)

lemma stable_filledSquare [simp]: "stable s (post (filledSquare x y r s))"
  unfolding filledSquare_def by (intro stable_intros stable_filledRectangle)

lemma stable_polygon [simp]: "stable s (post (polygon x y s))"
  unfolding polygon_def by (intro stable_intros)

lemma stable_filledPolygon [simp]: "stable s (post (filledPolygon x y s))"
  unfolding filledPolygon_def by (intro stable_intros)

lemma stable_text_at [simp]: "stable s (post (text_at x y str s))"
  unfolding text_at_def by (intro stable_intros)

lemma stable_picture [simp]: "stable s (post (picture pic x y s))"
  unfolding picture_def Let_def by (intro stable_intros)

lemma stable_clear [simp]: "stable s (post (clear c s))"
  unfolding clear_def by (intro stable_intros)

lemma stable_save [simp]: "stable s (post (save f failure s))"
  unfolding save_def by (intro stable_intros) (simp split: option.split)

lemma stable_saveToFile [simp]: "stable s (post (saveToFile w s))"
proof -
  have save_case: "stable s1 (post (case save f (save_failure w) s1 of
      Return u s2 \<Rightarrow> toolkit (Subprocess [''confirmFileSave'']) s2
    | Raise (PygameError msg) s2 \<Rightarrow> toolkit (Subprocess [''reportFileSaveError'', msg]) s2
    | Raise e s2 \<Rightarrow> Raise e s2))" for s1 f
  proof (cases "save f (save_failure w) s1")
    case (Return u s2)
    have "stable s1 (post (save f (save_failure w) s1))" by simp
    with Return have "stable s1 s2" by simp
    then have "stable s1 (post (toolkit (Subprocess [''confirmFileSave'']) s2))"
      by (rule stable_trans) simp
    with Return show ?thesis by simp
  next
    case (Raise e s2)
    have "stable s1 (post (save f (save_failure w) s1))" by simp
    with Raise have s2: "stable s1 s2" by simp
    then have "stable s1 (post (toolkit c s2))" for c
      by (rule stable_trans) simp
    with Raise s2 show ?thesis by (cases e) simp_all
  qed
  show ?thesis
    unfolding saveToFile_def Let_def by (intro stable_intros save_case) simp
qed

lemma stable_handle_events [simp]: "stable s (post (handle_events w evs s))"
proof (induction w evs s rule: handle_events.induct)
  case (4 w button evs s)
  show ?case
  proof (cases "button = 3")
    case False
    with 4 show ?thesis by simp
  next
    case True
    have st: "stable s (post (saveToFile w s))" by simp
    show ?thesis
    proof (cases "saveToFile w s")
      case (Return u s1)
      with st have "stable s s1" by simp
      moreover have "stable s1 (post (handle_events w evs s1))"
        using "4.IH"(1) True Return by simp
      ultimately have "stable s (post (handle_events w evs s1))" by (rule stable_trans)
      with True Return show ?thesis by simp
    next
      case (Raise e s1)
      with st True show ?thesis by simp
    qed
  qed
next
  case (3 w u evs s)
  have "stable s (s\<lparr>keysTyped := [u] @ keysTyped s\<rparr>)" by (simp add: stable_def)
  with 3 show ?case by (auto intro: stable_trans)
next
  case (5 w button pos evs s)
  have "stable s (s\<lparr>mousePressed := True, mousePos := Some pos\<rparr>)" by (simp add: stable_def)
  with 5 show ?case by (auto intro: stable_trans)
qed simp_all

lemma stable_checkForEvents [simp]: "stable s (post (checkForEvents w evs s))"
  unfolding checkForEvents_def by (intro stable_intros stable_handle_events)

lemma stable_show_canvas [simp]: "stable s (post (show_canvas w evs s))"
  unfolding show_canvas_def by (intro stable_intros stable_checkForEvents)

lemma stable_sleep [simp]: "stable s (post (sleep sec s))"
  unfolding sleep_def by (intro stable_intros) simp

lemma stable_wait_forever:
  "wait_forever w polls s = Some res \<Longrightarrow> stable s (post res)"
proof (induction polls arbitrary: s)
  case Nil
  then show ?case by simp
next
  case (Cons events polls)
  have step: "stable s (post (obind (sleep QUANTUM s) (\<lambda>_ s. checkForEvents w events s)))"
    by (intro stable_intros stable_sleep stable_checkForEvents)
  show ?case
  proof (cases "obind (sleep QUANTUM s) (\<lambda>_ s. checkForEvents w events s)")
    case (Return u s1)
    with Cons.prems have "wait_forever w polls s1 = Some res" by simp
    then have "stable s1 (post res)" by (rule Cons.IH)
    moreover from step Return have "stable s s1" by simp
    ultimately show ?thesis by (rule stable_trans [rotated])
  next
    case (Raise e s1)
    with Cons.prems step show ?thesis by auto
  qed
qed

lemma stable_showAndWaitForever:
  assumes "showAndWaitForever w polls s = Some res"
  shows "stable s (post res)"
proof -
  let ?m = "obind (make_sure_window_created s)
             (\<lambda>_ s. show_canvas w (case polls of [] \<Rightarrow> [] | b # _ \<Rightarrow> b) s)"
  have step: "stable s (post ?m)"
    by (intro stable_intros stable_show_canvas)
  show ?thesis
  proof (cases ?m)
    case (Return u s1)
    with assms have "wait_forever w (tl polls) s1 = Some res"
      by (simp add: showAndWaitForever_def)
    then have "stable s1 (post res)" by (rule stable_wait_forever)
    moreover from step Return have "stable s s1" by simp
    ultimately show ?thesis by (rule stable_trans [rotated])
  next
    case (Raise e s1)
    with assms step show ?thesis by (auto simp: showAndWaitForever_def)
  qed
qed

lemma stable_wait_loop [simp]: "stable s (post (wait_loop w waited sec polls s))"
proof (induction w waited sec polls s rule: wait_loop.induct)
  case (1 w secondsWaited sec polls s)
  show ?case
  proof (cases "secondsWaited < sec")
    case False
    then show ?thesis by simp
  next
    case True
    have sl: "stable s (post (sleep QUANTUM s))" by simp
    show ?thesis
    proof (cases "sleep QUANTUM s")
      case (Raise e s1)
      with sl True show ?thesis by simp
    next
      case (Return u s1)
      with sl have s1: "stable s s1" by simp
      have ch: "stable s1 (post (checkForEvents w (case polls of [] \<Rightarrow> [] | b # _ \<Rightarrow> b) s1))"
        by simp
      show ?thesis
      proof (cases "checkForEvents w (case polls of [] \<Rightarrow> [] | b # _ \<Rightarrow> b) s1")
        case (Raise e s2)
        with ch s1 True Return show ?thesis by (auto intro: stable_trans)
      next
        case r2: (Return u2 s2)
        with ch have s2: "stable s1 s2" by simp
        have "stable s2 (post (wait_loop w (secondsWaited + QUANTUM) sec (tl polls) s2))"
          using "1.IH" True Return r2 by simp
        with s1 s2 have "stable s (post (wait_loop w (secondsWaited + QUANTUM) sec (tl polls) s2))"
          by (blast intro: stable_trans)
        with True Return r2 show ?thesis by simp
      qed
    qed
  qed
qed

lemma stable_show_for:
  assumes "show_for msec w polls s = Some res"
  shows "stable s (post res)"
proof (cases msec)
  case None
  with assms show ?thesis by (simp add: show_for_def stable_showAndWaitForever)
next
  case (Some ms)
  with assms have res: "res = obind (make_sure_window_created s)
     (\<lambda>_ s. obind (show_canvas w (case polls of [] \<Rightarrow> [] | b # _ \<Rightarrow> b) s)
     (\<lambda>_ s. obind (checkForEvents w (case tl polls of [] \<Rightarrow> [] | b # _ \<Rightarrow> b) s)
     (\<lambda>_ s. let sec = ms / 1000 in
               if sec < QUANTUM then sleep sec s
               else wait_loop w 0 sec (tl (tl polls)) s)))"
    by (simp add: show_for_def)
  show ?thesis
    unfolding res Let_def
    by (intro stable_intros stable_show_canvas stable_checkForEvents stable_sleep
        stable_wait_loop)
qed

lemma post_lift [simp]: "post (lift r s) = s"
  by (cases r) simp_all

lemma stable_keys_mouse [simp]:
  "stable s (post (hasNextKeyTyped s))"
  "stable s (post (nextKeyTyped s))"
  "stable s (post (mousePressed_fn s))"
  "stable s (post (mouseX s))"
  "stable s (post (mouseY s))"
  by (simp_all add: hasNextKeyTyped_def nextKeyTyped_def mousePressed_fn_def mouseX_def
      mouseY_def stable_def split: list.split option.split)

lemma stable_font_color [simp]:
  "stable s (post (set_pen_color c s))"
  "stable s (post (set_font_family f s))"
  "stable s (post (set_font_size n s))"
  by (simp_all add: set_pen_color_def set_font_family_def set_font_size_def stable_def)

text \<open>
  The recursion of \<^verbatim>\<open>_thick_line\<close>: whenever a call comes back, it has left alone what
  \<^verbatim>\<open>filledCircle\<close> leaves alone. This holds by induction on the definition and needs
  nothing about the arithmetic.
\<close>

lemma stable_thick_line:
  assumes "thick_line x0 y0 x1 y1 r s = Some res"
  shows "stable s (post res)"
proof (rule thick_line.raw_induct
    [where P = "\<lambda>x0 y0 x1 y1 r s res. stable s (post res)", OF _ assms])
  fix f :: "rat \<Rightarrow> rat \<Rightarrow> rat \<Rightarrow> rat \<Rightarrow> rat \<Rightarrow> state \<Rightarrow> unit outcome option"
    and x0 y0 x1 y1 r :: rat and s :: state and res :: "unit outcome"
  assume IH: "\<And>x0 y0 x1 y1 r s res. f x0 y0 x1 y1 r s = Some res \<Longrightarrow> stable s (post res)"
  assume body:
    "(case scale_x s x0 of Inl e \<Rightarrow> Some (Raise e s) | Inr xs0 \<Rightarrow>
     (case scale_y s y0 of Inl e \<Rightarrow> Some (Raise e s) | Inr ys0 \<Rightarrow>
     (case scale_x s x1 of Inl e \<Rightarrow> Some (Raise e s) | Inr xs1 \<Rightarrow>
     (case scale_y s y1 of Inl e \<Rightarrow> Some (Raise e s) | Inr ys1 \<Rightarrow>
        if \<bar>xs0 - xs1\<bar> < 1 \<and> \<bar>ys0 - ys1\<bar> < 1 then Some (filledCircle x0 y0 r s)
        else
          let xMid = (x0 + x1) / 2; yMid = (y0 + y1) / 2
          in Option.bind (f x0 y0 xMid yMid r s)
               (\<lambda>res. (case res of
                  Raise e s' \<Rightarrow> Some (Raise e s')
                | Return _ s' \<Rightarrow> f xMid yMid x1 y1 r s')))))) = Some res"
  show "stable s (post res)"
  proof (cases "\<exists>xs0 ys0 xs1 ys1. scale_x s x0 = Inr xs0 \<and> scale_y s y0 = Inr ys0
      \<and> scale_x s x1 = Inr xs1 \<and> scale_y s y1 = Inr ys1")
    case False
    with body have "\<exists>e. res = Raise e s"
      by (auto split: sum.splits)
    then show ?thesis by auto
  next
    case True
    then obtain xs0 ys0 xs1 ys1 where v: "scale_x s x0 = Inr xs0" "scale_y s y0 = Inr ys0"
        "scale_x s x1 = Inr xs1" "scale_y s y1 = Inr ys1"
      by blast
    show ?thesis
    proof (cases "\<bar>xs0 - xs1\<bar> < 1 \<and> \<bar>ys0 - ys1\<bar> < 1")
      case True
      with body v have "res = filledCircle x0 y0 r s" by simp
      then show ?thesis by simp
    next
      case False
      with body v obtain res1 where
        r1: "f x0 y0 ((x0 + x1) / 2) ((y0 + y1) / 2) r s = Some res1"
        and r2: "(case res1 of
            Return u s' \<Rightarrow> f ((x0 + x1) / 2) ((y0 + y1) / 2) x1 y1 r s'
          | Raise e s' \<Rightarrow> Some (Raise e s')) = Some res"
        by (auto simp: Let_def bind_eq_Some_conv)
      from r1 have s1: "stable s (post res1)" by (rule IH)
      show ?thesis
      proof (cases res1)
        case (Raise e s')
        with r2 s1 show ?thesis by auto
      next
        case (Return u s')
        with r2 have "f ((x0 + x1) / 2) ((y0 + y1) / 2) x1 y1 r s' = Some res" by simp
        then have "stable s' (post res)" by (rule IH)
        moreover from s1 Return have "stable s s'" by simp
        ultimately show ?thesis by (rule stable_trans [rotated])
      qed
    qed
  qed
qed

subsection \<open>Invariants of the public operations\<close>

lemma stable_line:
  assumes "line x0 y0 x1 y1 s = Some res"
  shows "stable s (post res)"
proof -
  define s1 where "s1 = post (make_sure_window_created s)"
  have m: "make_sure_window_created s = Return () s1"
    by (simp add: s1_def make_sure_window_created_eq)
  have s1: "stable s s1"
    unfolding s1_def by simp
  define lw where "lw = (if pen_radius s1 * 2 = 0 then 1 else pen_radius s1 * 2)"
  show ?thesis
  proof (cases "lw < THICK_LINE_CUTOFF")
    case True
    with assms have res: "res = obind (lift (scale_x s1 x0) s1)
        (\<lambda>x0s s. obind (lift (scale_y s y0) s)
        (\<lambda>y0s s. obind (lift (scale_x s x1) s)
        (\<lambda>x1s s. obind (lift (scale_y s y1) s)
        (\<lambda>y1s s. toolkit (DrawLine (penColor s) (x0s, y0s) (x1s, y1s) (py_round lw)) s))))"
      by (simp add: line_def m lw_def Let_def)
    have "stable s1 (post res)"
      unfolding res by (intro stable_intros)
    with s1 show ?thesis by (rule stable_trans)
  next
    case False
    with assms have
      "thick_line x0 y0 x1 y1 (pen_radius s1 / of_int DEFAULT_CANVAS_SIZE) s1 = Some res"
      by (simp add: line_def m lw_def Let_def)
    then have "stable s1 (post res)" by (rule stable_thick_line)
    with s1 show ?thesis by (rule stable_trans)
  qed
qed

lemma exec_cases:
  assumes "exec c s = Some s'"
  shows "stable s s'
    \<or> (\<exists>w h. c = SetCanvasSize w h \<and> s' = post (set_canvas_size w h s))
    \<or> (\<exists>mn mx. c = SetXscale mn mx \<and> s' = post (set_xscale mn mx s))
    \<or> (\<exists>mn mx. c = SetYscale mn mx \<and> s' = post (set_yscale mn mx s))
    \<or> (\<exists>r. c = SetPenRadius r \<and> s' = post (set_pen_radius r s))"
proof (cases c)
  case (Line x0 y0 x1 y1)
  with assms obtain res where "line x0 y0 x1 y1 s = Some res" "s' = post res"
    by auto
  then show ?thesis by (simp add: stable_line)
next
  case (Show msec w polls)
  with assms obtain res where "show_for msec w polls s = Some res" "s' = post res"
    by auto
  then show ?thesis by (simp add: stable_show_for)
qed (use assms in auto)

lemma stable_canvas_inv: "stable s s' \<Longrightarrow> canvas_inv s \<Longrightarrow> canvas_inv s'"
  by (auto simp add: stable_def canvas_inv_def)

lemma post_set_canvas_size:
  "post (set_canvas_size w h s) =
     (if windowCreated s \<or> w < 1 \<or> h < 1 then s
      else s\<lparr>canvasWidth := of_int w, canvasHeight := of_int h,
             calls := calls s @ [SetMode w h,
               SetCaption ''stddraw window (r-click to save)'', NewSurface w h, Fill WHITE],
             windowCreated := True\<rparr>)"
  by (simp add: set_canvas_size_def toolkit_def)

lemma exec_canvas_inv:
  assumes "exec c s = Some s'" and "canvas_inv s"
  shows "canvas_inv s'"
proof -
  from exec_cases [OF assms(1)] consider
      "stable s s'"
    | w h where "s' = post (set_canvas_size w h s)"
    | mn mx where "s' = post (set_xscale mn mx s)"
    | mn mx where "s' = post (set_yscale mn mx s)"
    | r where "s' = post (set_pen_radius r s)"
    by blast
  then show ?thesis
  proof cases
    case 1
    then show ?thesis using assms(2) by (rule stable_canvas_inv)
  next
    case 2
    with assms(2) show ?thesis
      by (simp add: post_set_canvas_size canvas_inv_def)
  next
    case 3
    with assms(2) show ?thesis
      by (simp add: set_xscale_def canvas_inv_def Let_def)
  next
    case 4
    with assms(2) show ?thesis
      by (simp add: set_yscale_def canvas_inv_def Let_def)
  next
    case 5
    with assms(2) show ?thesis
      by (simp add: set_pen_radius_def canvas_inv_def)
  qed
qed

lemma exec_window:
  assumes "exec c s = Some s'" and "windowCreated s"
  shows "windowCreated s'"
  using exec_cases [OF assms(1)] assms(2)
  by (auto simp: stable_def post_set_canvas_size set_xscale_def set_yscale_def
      set_pen_radius_def Let_def split: if_splits)

lemma run_canvas_inv:
  "run cs s = Some s' \<Longrightarrow> canvas_inv s \<Longrightarrow> canvas_inv s'"
proof (induction cs arbitrary: s)
  case Nil
  then show ?case by simp
next
  case (Cons c cs)
  from Cons.prems(1) obtain s1 where "exec c s = Some s1" "run cs s1 = Some s'"
    by (auto split: option.splits)
  with Cons.IH Cons.prems(2) show ?case
    by (blast intro: exec_canvas_inv)
qed

lemma initial_canvas_inv: "canvas_inv initial_state"
  by (simp add: canvas_inv_def initial_state_eq)

lemma click_run_state: "run click_run initial_state = Some clicked_state"
  by code_simp

text \<open>
  Claim C4. \<^verbatim>\<open>set_canvas_size(w, h)\<close> raises whenever the window has been created,
  and whenever \<open>w < 1\<close> or \<open>h < 1\<close>; when it does not raise, the canvas width and
  height are \<open>w\<close> and \<open>h\<close> and the window-created flag is true; and no public
  function called with the flag true leaves it false.
\<close>

theorem set_canvas_size_checks:
  "(windowCreated s \<longrightarrow> raises (set_canvas_size w h s))
   \<and> (w < 1 \<or> h < 1 \<longrightarrow> raises (set_canvas_size w h s))
   \<and> (\<not> raises (set_canvas_size w h s) \<longrightarrow>
        canvasWidth (post (set_canvas_size w h s)) = of_int w
        \<and> canvasHeight (post (set_canvas_size w h s)) = of_int h
        \<and> windowCreated (post (set_canvas_size w h s)))
   \<and> (windowCreated t \<and> exec c t = Some t' \<longrightarrow> windowCreated t')"
  using exec_window [of c t t']
  by (simp add: set_canvas_size_def toolkit_def)

theorem set_canvas_size_checks_witness:
  "\<not> raises (set_canvas_size 100 50 initial_state)
   \<and> canvasWidth window_state = 100 \<and> canvasHeight window_state = 50
   \<and> windowCreated window_state
   \<and> raises (set_canvas_size 10 10 window_state)
   \<and> raises (set_canvas_size 0 5 initial_state)
   \<and> exec (Clear BLACK) window_state =
       Some (window_state\<lparr>calls := calls window_state @ [Fill BLACK]\<rparr>)
   \<and> windowCreated (window_state\<lparr>calls := calls window_state @ [Fill BLACK]\<rparr>)"
proof -
  have n: "\<not> raises (set_canvas_size 100 50 initial_state)"
    by (simp add: set_canvas_size_def toolkit_def initial_state_eq)
  have e: "exec (Clear BLACK) window_state =
      Some (window_state\<lparr>calls := calls window_state @ [Fill BLACK]\<rparr>)"
    by code_simp
  from n e set_canvas_size_checks [of initial_state 100 50 window_state "Clear BLACK"
      "window_state\<lparr>calls := calls window_state @ [Fill BLACK]\<rparr>"]
    set_canvas_size_checks [of window_state 10 10 window_state "Clear BLACK"
      "window_state\<lparr>calls := calls window_state @ [Fill BLACK]\<rparr>"]
    set_canvas_size_checks [of initial_state 0 5 window_state "Clear BLACK"
      "window_state\<lparr>calls := calls window_state @ [Fill BLACK]\<rparr>"]
  show ?thesis
    by (simp add: window_state_def [symmetric])
qed

subsection \<open>Mouse queries\<close>

lemma saveToFile_mouse:
  "\<exists>s'. saveToFile w s = Return () s' \<and> mousePos s' = mousePos s"
  by (simp add: saveToFile_def make_sure_window_created_eq toolkit_def save_def Let_def
      split: option.split)

lemma handle_events_mouse:
  "Quit \<notin> set evs \<Longrightarrow>
   mousePos (post (handle_events w evs s)) =
     (case last_click evs of Some p \<Rightarrow> Some p | None \<Rightarrow> mousePos s)"
proof (induction w evs s rule: handle_events.induct)
  case (4 w button evs s)
  obtain s1 where s1: "saveToFile w s = Return () s1" "mousePos s1 = mousePos s"
    using saveToFile_mouse by blast
  from 4 s1 show ?case by (cases "button = 3") (auto split: option.split)
qed (auto split: option.split)

lemma checkForEvents_mouse:
  assumes "Quit \<notin> set evs"
  shows "mousePos (post (checkForEvents w evs s)) =
     (case last_click evs of Some p \<Rightarrow> Some p | None \<Rightarrow> mousePos s)"
proof -
  define s1 where "s1 = post (make_sure_window_created s)"
  have m: "make_sure_window_created s = Return () s1" and k: "mousePos s1 = mousePos s"
    by (simp_all add: s1_def make_sure_window_created_eq)
  from handle_events_mouse [OF assms, of w s1] k show ?thesis
    by (simp add: checkForEvents_def m split: option.split)
qed

text \<open>
  Claim C5. In every state reached from the state after loading, \<^verbatim>\<open>mouseX()\<close> and
  \<^verbatim>\<open>mouseY()\<close> raise exactly when the stored mouse position is \<^verbatim>\<open>None\<close>; they
  leave the globals as they were; and with a stored position \<open>(px, py)\<close> they return
  \<^verbatim>\<open>_user_x(px)\<close> and \<^verbatim>\<open>_user_y(py)\<close>. The stored position is that of the
  latest left click: a poll without a quit event stores the position of the latest
  press of the left button among its events, and keeps the stored one when there is
  none.
\<close>

theorem mouse_position:
  assumes "run cs initial_state = Some s"
  shows "(raises (mouseX s) \<longleftrightarrow> mousePos s = None)
    \<and> (raises (mouseY s) \<longleftrightarrow> mousePos s = None)
    \<and> post (mouseX s) = s \<and> post (mouseY s) = s
    \<and> (\<forall>px py. mousePos s = Some (px, py) \<longrightarrow>
          (\<exists>u v. user_x s (of_int px) = Inr u \<and> user_y s (of_int py) = Inr v
             \<and> mouseX s = Return u s \<and> mouseY s = Return v s))
    \<and> (Quit \<notin> set evs \<longrightarrow>
          mousePos (post (checkForEvents w evs s)) =
            (case last_click evs of Some p \<Rightarrow> Some p | None \<Rightarrow> mousePos s))"
proof -
  have "canvas_inv s"
    using assms initial_canvas_inv by (rule run_canvas_inv)
  then have "canvasWidth s \<noteq> 0" "canvasHeight s \<noteq> 0"
    by (auto simp: canvas_inv_def)
  then show ?thesis
    using checkForEvents_mouse [of evs w s]
    by (auto simp: mouseX_def mouseY_def user_x_def user_y_def py_div_def
        split: option.split)
qed

theorem mouse_position_witness:
  "run click_run initial_state = Some clicked_state
   \<and> mousePos clicked_state = Some (128, 384)
   \<and> mouseX clicked_state = Return (1 / 4) clicked_state
   \<and> mouseY clicked_state = Return (1 / 4) clicked_state
   \<and> Quit \<notin> set typed_events
   \<and> mousePos (post (checkForEvents \<lparr>dialog_reply = [], save_failure = None\<rparr>
         typed_events clicked_state)) = Some (1, 1)
   \<and> run [] initial_state = Some initial_state
   \<and> raises (mouseX initial_state) \<and> raises (mouseY initial_state)
   \<and> post (mouseX initial_state) = initial_state"
proof -
  have p: "mousePos clicked_state = Some (128, 384)" "mousePos initial_state = None"
    by (simp_all add: clicked_state_def initial_state_eq)
  have u: "user_x clicked_state (of_int 128) = Inr (1 / 4)"
    "user_y clicked_state (of_int 384) = Inr (1 / 4)"
    by (simp_all add: clicked_state_def user_x_def user_y_def py_div_def)
  have q: "Quit \<notin> set typed_events" "last_click typed_events = Some (1, 1)"
    by (simp_all add: typed_events_def)
  have r: "run [] initial_state = Some initial_state" by simp
  from mouse_position [OF click_run_state, of typed_events
      "\<lparr>dialog_reply = [], save_failure = None\<rparr>"]
    mouse_position [OF r, of typed_events "\<lparr>dialog_reply = [], save_failure = None\<rparr>"]
    p u q click_run_state r
  show ?thesis by auto
qed

subsection \<open>The queue of typed keys\<close>

lemma saveToFile_keys:
  "\<exists>s'. saveToFile w s = Return () s' \<and> keysTyped s' = keysTyped s"
  by (simp add: saveToFile_def make_sure_window_created_eq toolkit_def save_def Let_def
      split: option.split)

lemma handle_events_keys:
  "Quit \<notin> set evs \<Longrightarrow>
   \<exists>s'. handle_events w evs s = Return () s' \<and> keysTyped s' = rev (keys_of evs) @ keysTyped s"
proof (induction w evs s rule: handle_events.induct)
  case (4 w button evs s)
  obtain s1 where s1: "saveToFile w s = Return () s1" "keysTyped s1 = keysTyped s"
    using saveToFile_keys by blast
  from 4 s1 show ?case by (cases "button = 3") auto
qed auto

lemma checkForEvents_keys:
  assumes "Quit \<notin> set evs"
  shows "\<exists>s'. checkForEvents w evs s = Return () s'
    \<and> keysTyped s' = rev (keys_of evs) @ keysTyped s"
proof -
  define s1 where "s1 = post (make_sure_window_created s)"
  have m: "make_sure_window_created s = Return () s1" and k: "keysTyped s1 = keysTyped s"
    by (simp_all add: s1_def make_sure_window_created_eq)
  from handle_events_keys [OF assms, of w s1] k show ?thesis
    by (simp add: checkForEvents_def m)
qed

lemma nextKeyTyped_nonempty:
  assumes "keysTyped s \<noteq> []"
  shows "nextKeyTyped s =
    Return (last (keysTyped s)) (s\<lparr>keysTyped := butlast (keysTyped s)\<rparr>)"
proof -
  from assms obtain a as where "keysTyped s = a # as"
    by (cases "keysTyped s") simp_all
  then show ?thesis by (simp add: nextKeyTyped_def)
qed

lemma next_keys_fifo:
  "keysTyped s = rev ks \<Longrightarrow> next_keys (length ks) s = Return ks (s\<lparr>keysTyped := []\<rparr>)"
proof (induction ks arbitrary: s)
  case Nil
  then show ?case by simp
next
  case (Cons k ks)
  then have n: "nextKeyTyped s = Return k (s\<lparr>keysTyped := rev ks\<rparr>)"
    by (simp add: nextKeyTyped_nonempty)
  have "next_keys (length ks) (s\<lparr>keysTyped := rev ks\<rparr>)
      = Return ks (s\<lparr>keysTyped := rev ks\<rparr>\<lparr>keysTyped := []\<rparr>)"
    by (rule Cons.IH) simp
  with n show ?case by simp
qed

text \<open>
  Claim C10. A poll without a quit event returns and puts the keys typed in front of
  the queue, the latest first; \<^verbatim>\<open>nextKeyTyped()\<close> takes from the back, so that
  calling it once per key of a queue returns the keys in the order they were typed and
  leaves the queue empty; \<^verbatim>\<open>hasNextKeyTyped()\<close> returns whether the queue is
  non-empty; and \<^verbatim>\<open>nextKeyTyped()\<close> on an empty queue raises the IndexError of
  \<^verbatim>\<open>list.pop\<close>, not an exception of the module's own.
\<close>

theorem key_queue_fifo:
  "(Quit \<notin> set events \<longrightarrow>
      (\<exists>s'. checkForEvents w events s = Return () s'
         \<and> keysTyped s' = rev (keys_of events) @ keysTyped s))
   \<and> (keysTyped s = rev ks \<longrightarrow> next_keys (length ks) s = Return ks (s\<lparr>keysTyped := []\<rparr>))
   \<and> (keysTyped s = [] \<and> Quit \<notin> set events \<longrightarrow>
        (\<exists>s'. checkForEvents w events s = Return () s'
           \<and> next_keys (length (keys_of events)) s' =
               Return (keys_of events) (s'\<lparr>keysTyped := []\<rparr>)))
   \<and> hasNextKeyTyped s = Return (keysTyped s \<noteq> []) s
   \<and> (keysTyped s = [] \<longrightarrow> nextKeyTyped s = Raise IndexError s)"
proof (intro conjI impI)
  show "hasNextKeyTyped s = Return (keysTyped s \<noteq> []) s"
    by (simp add: hasNextKeyTyped_def)
  show "nextKeyTyped s = Raise IndexError s" if "keysTyped s = []"
    using that by (simp add: nextKeyTyped_def)
  show "next_keys (length ks) s = Return ks (s\<lparr>keysTyped := []\<rparr>)" if "keysTyped s = rev ks"
    using that by (rule next_keys_fifo)
  show "\<exists>s'. checkForEvents w events s = Return () s'
      \<and> keysTyped s' = rev (keys_of events) @ keysTyped s" if "Quit \<notin> set events"
    using that by (rule checkForEvents_keys)
  show "\<exists>s'. checkForEvents w events s = Return () s'
      \<and> next_keys (length (keys_of events)) s' =
          Return (keys_of events) (s'\<lparr>keysTyped := []\<rparr>)"
    if a: "keysTyped s = [] \<and> Quit \<notin> set events"
  proof -
    from a checkForEvents_keys [of events w s] obtain s' where
      s': "checkForEvents w events s = Return () s'" "keysTyped s' = rev (keys_of events)"
      by auto
    from next_keys_fifo [OF s'(2)] s'(1) show ?thesis by simp
  qed
qed

theorem key_queue_fifo_witness:
  "Quit \<notin> set typed_events \<and> keysTyped initial_state = []
   \<and> keys_of typed_events = [''a'', ''b'']
   \<and> (\<exists>s'. checkForEvents \<lparr>dialog_reply = [], save_failure = None\<rparr> typed_events
               initial_state = Return () s'
          \<and> keysTyped s' = [''b'', ''a'']
          \<and> next_keys 2 s' = Return [''a'', ''b''] (s'\<lparr>keysTyped := []\<rparr>))
   \<and> hasNextKeyTyped initial_state = Return False initial_state
   \<and> nextKeyTyped initial_state = Raise IndexError initial_state"
proof -
  have h: "Quit \<notin> set typed_events" "keysTyped initial_state = []"
    "keys_of typed_events = [''a'', ''b'']"
    by (simp_all add: typed_events_def initial_state_eq)
  from key_queue_fifo [of typed_events "\<lparr>dialog_reply = [], save_failure = None\<rparr>"
      initial_state "[]"] h
  show ?thesis by (auto simp: numeral_2_eq_2)
qed

subsection \<open>Small shapes far from the origin\<close>

text \<open>
  Claim C8 (the code misses a case). With the default scale and canvas, a circle of radius
  \<open>1/2048\<close> and a rectangle of side \<open>1/1024\<close> have the scaled size \<open>1/2\<close>, at most one
  pixel, so \<^verbatim>\<open>circle\<close>, \<^verbatim>\<open>filledCircle\<close>, \<^verbatim>\<open>rectangle\<close> and \<^verbatim>\<open>filledRectangle\<close> go to
  \<^verbatim>\<open>_pixel\<close>. Anchored at \<open>x = 64\<close> the pixel's column is \<open>32768\<close>, one past what
  \<^verbatim>\<open>pygame.gfxdraw.pixel\<close> takes: each of the four raises OverflowError, and the only
  toolkit calls made are those that open the window, so no pixel is drawn. The same
  happens in \<^verbatim>\<open>point(100, 0)\<close> with the pen radius \<open>0\<close>. Every number here is a dyadic
  rational that a double holds exactly, and so is every intermediate result.
\<close>

theorem small_shape_overflow:
  "factor_x opened_state (2 * (1 / 2048)) = Inr (1 / 2)
   \<and> factor_y opened_state (2 * (1 / 2048)) = Inr (1 / 2)
   \<and> factor_x opened_state (1 / 1024) = Inr (1 / 2)
   \<and> factor_y opened_state (1 / 1024) = Inr (1 / 2)
   \<and> scale_x opened_state 64 = Inr 32768
   \<and> circle 64 (1 / 2) (1 / 2048) initial_state = Raise OverflowError opened_state
   \<and> filledCircle 64 (1 / 2) (1 / 2048) initial_state = Raise OverflowError opened_state
   \<and> rectangle 64 (1 / 2) (1 / 1024) (1 / 1024) initial_state
       = Raise OverflowError opened_state
   \<and> filledRectangle 64 (1 / 2) (1 / 1024) (1 / 1024) initial_state
       = Raise OverflowError opened_state
   \<and> calls opened_state
       = [SetMode 512 512, SetCaption ''stddraw window (r-click to save)'',
          NewSurface 512 512, Fill WHITE]
   \<and> pen_radius thin_pen_state = 0
   \<and> point 100 0 thin_pen_state
       = Raise OverflowError (post (make_sure_window_created thin_pen_state))
   \<and> calls (post (make_sure_window_created thin_pen_state)) = calls opened_state"
proof -
  have sz: "factor_x opened_state (2 * (1 / 2048)) = Inr (1 / 2)"
    "factor_y opened_state (2 * (1 / 2048)) = Inr (1 / 2)"
    "factor_x opened_state (1 / 1024) = Inr (1 / 2)"
    "factor_y opened_state (1 / 1024) = Inr (1 / 2)"
    "scale_x opened_state 64 = Inr 32768"
    by code_simp+
  have ev: "circle 64 (1 / 2) (1 / 2048) initial_state = Raise OverflowError opened_state"
    "filledCircle 64 (1 / 2) (1 / 2048) initial_state = Raise OverflowError opened_state"
    "rectangle 64 (1 / 2) (1 / 1024) (1 / 1024) initial_state
       = Raise OverflowError opened_state"
    "filledRectangle 64 (1 / 2) (1 / 1024) (1 / 1024) initial_state
       = Raise OverflowError opened_state"
    by code_simp+
  have pt: "pen_radius thin_pen_state = 0"
    "point 100 0 thin_pen_state
       = Raise OverflowError (post (make_sure_window_created thin_pen_state))"
    "calls (post (make_sure_window_created thin_pen_state)) = calls opened_state"
    by code_simp+
  have cs: "calls opened_state
       = [SetMode 512 512, SetCaption ''stddraw window (r-click to save)'',
          NewSurface 512 512, Fill WHITE]"
    by code_simp
  from sz ev pt cs show ?thesis by (simp only: simp_thms)
qed

subsection \<open>The pen and the canvas size\<close>

text \<open>
  Claim C9 (the thick branch of \<^verbatim>\<open>line\<close> differs from its sibling paths).
  \<^verbatim>\<open>set_pen_radius(1/128)\<close> stores the pen radius \<open>4\<close>, whatever the canvas. \<^verbatim>\<open>point\<close>
  draws with it a disc \<open>8\<close> pixels wide on the canvas of 512 pixels and on the one of
  1024 pixels. A line is thick from the width \<open>3\<close> on and is drawn as discs of the
  radius \<^verbatim>\<open>_pen_radius/_DEFAULT_CANVAS_SIZE\<close> in user coordinates, which
  \<^verbatim>\<open>filledCircle\<close> scales by the canvas size: the disc of a short line is \<open>8\<close> pixels
  wide on the canvas of 512 pixels and \<open>16\<close> pixels wide on the canvas of 1024 pixels.
  So the thickness of such a line does scale with the canvas.
\<close>

theorem thick_line_scales_with_canvas:
  "pen_radius narrow_state = 4 \<and> canvasWidth narrow_state = 512
   \<and> pen_radius wide_state = 4 \<and> canvasWidth wide_state = 1024
   \<and> point (1 / 2) (1 / 2) narrow_state
       = Return () (narrow_state
           \<lparr>calls := calls narrow_state @ [DrawEllipse BLACK 252 252 8 8 0]\<rparr>)
   \<and> point (1 / 2) (1 / 2) wide_state
       = Return () (wide_state
           \<lparr>calls := calls wide_state @ [DrawEllipse BLACK 508 508 8 8 0]\<rparr>)
   \<and> line (1 / 2) (1 / 2) (1 / 2 + 1 / 2048) (1 / 2) narrow_state
       = Some (Return () (narrow_state
           \<lparr>calls := calls narrow_state @ [DrawEllipse BLACK 252 252 8 8 0]\<rparr>))
   \<and> line (1 / 2) (1 / 2) (1 / 2 + 1 / 2048) (1 / 2) wide_state
       = Some (Return () (wide_state
           \<lparr>calls := calls wide_state @ [DrawEllipse BLACK 504 504 16 16 0]\<rparr>))"
proof -
  have st: "pen_radius narrow_state = 4" "canvasWidth narrow_state = 512"
    "pen_radius wide_state = 4" "canvasWidth wide_state = 1024"
    by code_simp+
  have pt: "point (1 / 2) (1 / 2) narrow_state
       = Return () (narrow_state
           \<lparr>calls := calls narrow_state @ [DrawEllipse BLACK 252 252 8 8 0]\<rparr>)"
    "point (1 / 2) (1 / 2) wide_state
       = Return () (wide_state
           \<lparr>calls := calls wide_state @ [DrawEllipse BLACK 508 508 8 8 0]\<rparr>)"
    by code_simp+
  have ln: "line (1 / 2) (1 / 2) (1 / 2 + 1 / 2048) (1 / 2) narrow_state
       = Some (Return () (narrow_state
           \<lparr>calls := calls narrow_state @ [DrawEllipse BLACK 252 252 8 8 0]\<rparr>))"
    "line (1 / 2) (1 / 2) (1 / 2 + 1 / 2048) (1 / 2) wide_state
       = Some (Return () (wide_state
           \<lparr>calls := calls wide_state @ [DrawEllipse BLACK 504 504 16 16 0]\<rparr>))"
    by code_simp+
  from st pt ln show ?thesis by (simp only: simp_thms)
qed

section \<open>Properties of the functions over doubles\<close>

subsection \<open>Powers of two, rounding to an integer and to a double\<close>

lemma pow2_pos [simp]: "0 < pow2 e"
  by (simp add: pow2_def)

lemma pow2_nonzero [simp]: "pow2 e \<noteq> 0"
  by (simp add: pow2_def)

lemma pow2_add: "pow2 (i + j) = pow2 i * pow2 j"
  by (simp add: pow2_def power_int_add)

lemma pow2_nat: "pow2 (int n) = 2 ^ n"
  by (simp add: pow2_def)

lemma pow2_less_iff: "pow2 i < pow2 j \<longleftrightarrow> i < j"
proof
  assume "i < j"
  then show "pow2 i < pow2 j"
    unfolding pow2_def by (intro power_int_strict_increasing) simp_all
next
  assume lt: "pow2 i < pow2 j"
  show "i < j"
  proof (rule ccontr)
    assume "\<not> i < j"
    then have "j \<le> i" by simp
    then have "pow2 j \<le> pow2 i"
      unfolding pow2_def by (intro power_int_increasing) simp_all
    with lt show False by simp
  qed
qed

lemma ilog2_bounds:
  assumes "0 < x"
  shows "pow2 (ilog2 x) \<le> x" and "x < pow2 (ilog2 x + 1)"
proof -
  obtain a b where q: "quotient_of x = (a, b)"
    by (cases "quotient_of x")
  then have b: "0 < b" and x: "x = of_int a / of_int b"
    by (simp_all add: quotient_of_denom_pos quotient_of_div)
  with assms have a: "0 < a"
    by (simp add: zero_less_divide_iff)
  define la lb where "la = bitlen a" and "lb = bitlen b"
  have la: "(2::int) ^ nat (la - 1) \<le> a" "a < 2 ^ nat la"
    and lb: "(2::int) ^ nat (lb - 1) \<le> b" "b < 2 ^ nat lb"
    using bitlen_bounds [OF a] bitlen_bounds [OF b] by (simp_all add: la_def lb_def)
  have pos: "1 \<le> la" "1 \<le> lb"
    using a b by (simp_all add: la_def lb_def bitlen_alt_def)
  have ra: "pow2 (la - 1) \<le> of_int a" "of_int a < pow2 la"
  proof -
    have "rat_of_int (2 ^ nat (la - 1)) \<le> of_int a" "rat_of_int a < of_int (2 ^ nat la)"
      using la by (simp_all only: of_int_le_iff of_int_less_iff)
    then show "pow2 (la - 1) \<le> of_int a" "of_int a < pow2 la"
      using pos by (simp_all add: pow2_def power_int_def)
  qed
  have rb: "pow2 (lb - 1) \<le> of_int b" "of_int b < pow2 lb"
  proof -
    have "rat_of_int (2 ^ nat (lb - 1)) \<le> of_int b" "rat_of_int b < of_int (2 ^ nat lb)"
      using lb by (simp_all only: of_int_le_iff of_int_less_iff)
    then show "pow2 (lb - 1) \<le> of_int b" "of_int b < pow2 lb"
      using pos by (simp_all add: pow2_def power_int_def)
  qed
  define d where "d = la - lb"
  have bpos: "0 < rat_of_int b" using b by simp
  have up: "x < pow2 (d + 1)"
  proof -
    have "of_int a < pow2 la" by (rule ra)
    also have "pow2 la = pow2 (d + 1) * pow2 (lb - 1)"
      by (simp add: d_def pow2_add [symmetric])
    also have "\<dots> \<le> pow2 (d + 1) * of_int b"
      by (intro mult_left_mono rb) (simp add: less_imp_le)
    finally show ?thesis
      unfolding x using bpos by (simp add: pos_divide_less_eq)
  qed
  have low: "pow2 (d - 1) \<le> x"
  proof -
    have "pow2 (d - 1) * of_int b \<le> pow2 (d - 1) * pow2 lb"
      by (intro mult_left_mono) (simp_all add: less_imp_le rb)
    also have "\<dots> = pow2 (la - 1)"
      by (simp add: d_def pow2_add [symmetric])
    also have "\<dots> \<le> of_int a" by (rule ra)
    finally show ?thesis
      unfolding x using bpos by (simp add: pos_le_divide_eq)
  qed
  have il: "ilog2 x = (if pow2 d \<le> x then d else d - 1)"
    by (simp add: ilog2_def q d_def la_def lb_def)
  show "pow2 (ilog2 x) \<le> x"
    using low by (simp add: il)
  show "x < pow2 (ilog2 x + 1)"
    using up by (simp add: il not_le)
qed

lemma ilog2_unique:
  assumes "0 < x" "pow2 e \<le> x" "x < pow2 (e + 1)"
  shows "ilog2 x = e"
proof -
  note b = ilog2_bounds [OF assms(1)]
  have "pow2 (ilog2 x) < pow2 (e + 1)"
    using b(1) assms(3) by simp
  then have "ilog2 x < e + 1" by (simp add: pow2_less_iff)
  moreover have "pow2 e < pow2 (ilog2 x + 1)"
    using b(2) assms(2) by simp
  then have "e < ilog2 x + 1" by (simp add: pow2_less_iff)
  ultimately show ?thesis by simp
qed

lemma round_double_pos:
  assumes "0 < x" "pow2 e \<le> x" "x < pow2 (e + 1)"
  shows "round_double x =
    (let p = max (e - 52) (- 1074); y = of_int (py_round (x / pow2 p)) * pow2 p
     in if pow2 1024 \<le> y then PosInf else Finite y)"
  using assms(1) by (simp add: round_double_def ilog2_unique [OF assms] Let_def)

lemma round_double_neg:
  assumes "x < 0" "pow2 e \<le> - x" "- x < pow2 (e + 1)"
  shows "round_double x =
    (let p = max (e - 52) (- 1074); y = of_int (py_round (- x / pow2 p)) * pow2 p
     in if pow2 1024 \<le> y then NegInf else Finite (- y))"
proof -
  have "ilog2 \<bar>x\<bar> = e"
    using assms by (intro ilog2_unique) simp_all
  with assms(1) show ?thesis
    by (simp add: round_double_def Let_def)
qed

lemma py_round_int [simp]: "py_round (of_int m) = m"
  by (simp add: py_round_def)

lemma py_round_tie: "py_round (of_int m + 1 / 2) = (if even m then m else m + 1)"
proof -
  have "\<lfloor>rat_of_int m + 1 / 2\<rfloor> = m"
    by (simp add: floor_unique)
  then show ?thesis
    by (simp add: py_round_def)
qed

lemma py_round_near:
  assumes "of_int m - 1 / 2 < x" "x < of_int m + 1 / 2"
  shows "py_round x = m"
proof (cases "of_int m \<le> x")
  case True
  with assms have "\<lfloor>x\<rfloor> = m"
    by (intro floor_unique) simp_all
  with assms show ?thesis
    by (simp add: py_round_def)
next
  case False
  with assms have "\<lfloor>x\<rfloor> = m - 1"
    by (intro floor_unique) simp_all
  with assms False show ?thesis
    by (simp add: py_round_def)
qed

lemma pow2_numeral [simp]:
  "pow2 0 = 1"
  "pow2 1 = 2"
  "pow2 (numeral n) = 2 ^ numeral n"
  "pow2 (- numeral n) = 1 / 2 ^ numeral n"
  "pow2 (- 1) = 1 / 2"
  by (simp_all add: pow2_def power_int_minus field_simps)

text \<open>A number with a mantissa below \<open>2 ^ 53\<close> and an exponent in range is a double.\<close>

lemma round_double_exact:
  assumes k: "0 < k" "k < 2 ^ 53" and p: "- 1074 \<le> p"
    and fin: "of_int k * pow2 p < pow2 1024"
  shows "round_double (of_int k * pow2 p) = Finite (of_int k * pow2 p)"
proof -
  define x where "x = rat_of_int k * pow2 p"
  have xpos: "0 < x"
    using k by (simp add: x_def)
  define e where "e = ilog2 x"
  note b = ilog2_bounds [OF xpos, folded e_def]
  have "pow2 e \<le> rat_of_int k * pow2 p"
    using b(1) by (simp add: x_def)
  also have "\<dots> < 2 ^ 53 * pow2 p"
  proof -
    have "rat_of_int k < rat_of_int (2 ^ 53)"
      using k(2) by (simp only: of_int_less_iff)
    then show ?thesis by simp
  qed
  also have "\<dots> = pow2 (53 + p)"
    by (simp add: pow2_add)
  finally have "e < 53 + p"
    by (simp add: pow2_less_iff)
  define q where "q = max (e - 52) (- 1074)"
  have qp: "q \<le> p"
    using \<open>e < 53 + p\<close> p by (simp add: q_def)
  define n where "n = nat (p - q)"
  have pq: "p = q + int n"
    using qp by (simp add: n_def)
  have "x / pow2 q = rat_of_int k * 2 ^ n"
    by (simp add: x_def pq pow2_add pow2_nat)
  also have "\<dots> = rat_of_int (k * 2 ^ n)"
    by simp
  finally have r: "py_round (x / pow2 q) = k * 2 ^ n"
    by (simp only: py_round_int)
  have y: "rat_of_int (k * 2 ^ n) * pow2 q = x"
    by (simp add: x_def pq pow2_add pow2_nat)
  have "round_double x =
      (let p = max (e - 52) (- 1074); y = of_int (py_round (x / pow2 p)) * pow2 p
       in if pow2 1024 \<le> y then PosInf else Finite y)"
    using xpos b by (rule round_double_pos)
  also have "\<dots> = (if pow2 1024 \<le> x then PosInf else Finite x)"
    unfolding Let_def q_def [symmetric] r y by (rule refl)
  also have "\<dots> = Finite x"
  proof -
    have "x < pow2 1024"
      unfolding x_def by (rule fin)
    then have "\<not> pow2 1024 \<le> x"
      by (simp only: not_le)
    then show ?thesis
      by (simp only: if_False)
  qed
  finally show ?thesis
    by (simp only: x_def)
qed

lemma round_double_minus: "round_double (- x) = fneg (round_double x)"
  by (simp add: round_double_def Let_def)

lemma round_double_int:
  assumes "\<bar>k\<bar> < 2 ^ 53"
  shows "round_double (of_int k) = Finite (of_int k)"
proof -
  have pos: "round_double (of_int j) = Finite (of_int j)" if "0 < j" "j < 2 ^ 53" for j
  proof -
    have "rat_of_int j < rat_of_int (2 ^ 53)"
      using that(2) by (simp only: of_int_less_iff)
    then have "rat_of_int j * pow2 0 < pow2 1024"
      by simp
    from round_double_exact [OF that, of 0, OF _ this] show ?thesis
      by simp
  qed
  consider "k = 0" | "0 < k" | "k < 0" by linarith
  then show ?thesis
  proof cases
    case 1
    then show ?thesis by (simp add: round_double_def)
  next
    case 2
    with assms show ?thesis by (intro pos) simp_all
  next
    case 3
    with assms have "round_double (of_int (- k)) = Finite (of_int (- k))"
      by (intro pos) simp_all
    then have "fneg (round_double (of_int k)) = Finite (- of_int k)"
      by (simp add: round_double_minus)
    then show ?thesis
      by (cases "round_double (of_int k)") simp_all
  qed
qed

lemma r_overflow: "round_double (2 ^ 1024) = PosInf"
proof -
  have "py_round (2 ^ 1024 / pow2 972) = 2 ^ 52"
  proof -
    have "(2::rat) ^ 1024 / pow2 972 = of_int (2 ^ 52)"
      by simp
    then show ?thesis by (simp only: py_round_int)
  qed
  with round_double_pos [of "2 ^ 1024" 1024] show ?thesis
    by (simp add: Let_def)
qed

lemma r_tie: "round_double (2 ^ 54 + 2) = Finite (2 ^ 54)"
proof -
  have "py_round ((2 ^ 54 + 2) / pow2 2) = 2 ^ 52"
  proof -
    have "((2::rat) ^ 54 + 2) / pow2 2 = of_int (2 ^ 52) + 1 / 2"
      by simp
    then show ?thesis by (simp only: py_round_tie) simp
  qed
  with round_double_pos [of "2 ^ 54 + 2" 54] show ?thesis
    by (simp add: Let_def)
qed

lemma round_double_zero [simp]: "round_double 0 = Finite 0"
  by (simp add: round_double_def)

lemma rd_small:
  "round_double 1 = Finite 1"
  "round_double 2 = Finite 2"
  "round_double 3 = Finite 3"
  "round_double 512 = Finite 512"
  "round_double (- 1024) = Finite (- 1024)"
  using round_double_int [of 1] round_double_int [of 2] round_double_int [of 3]
    round_double_int [of 512] round_double_int [of "- 1024"]
  by simp_all

lemma rd_big:
  "round_double (2 ^ 53) = Finite (2 ^ 53)"
  "round_double (2 ^ 53 + 2) = Finite (2 ^ 53 + 2)"
  "round_double (2 ^ 62) = Finite (2 ^ 62)"
  "round_double (2 ^ 62 + 1024) = Finite (2 ^ 62 + 1024)"
  using round_double_exact [of "2 ^ 52" 1] round_double_exact [of "2 ^ 52 + 1" 1]
    round_double_exact [of "2 ^ 52" 10] round_double_exact [of "2 ^ 52 + 1" 10]
  by simp_all

lemma rd_pen:
  "round_double (5 / 1000) = Finite (5764607523034235 / 2 ^ 60)"
  "round_double (5764607523034235 / 2 ^ 51) = Finite (5764607523034235 / 2 ^ 51)"
  "round_double (5764607523034235 / 2 ^ 50) = Finite (5764607523034235 / 2 ^ 50)"
proof -
  have "py_round (5 / 1000 / pow2 (- 60)) = 5764607523034235"
    by (rule py_round_near) simp_all
  with round_double_pos [of "5 / 1000" "- 8"]
  show "round_double (5 / 1000) = Finite (5764607523034235 / 2 ^ 60)"
    by (simp add: Let_def)
  from round_double_exact [of 5764607523034235 "- 51"]
  show "round_double (5764607523034235 / 2 ^ 51) = Finite (5764607523034235 / 2 ^ 51)"
    by simp
  from round_double_exact [of 5764607523034235 "- 50"]
  show "round_double (5764607523034235 / 2 ^ 50) = Finite (5764607523034235 / 2 ^ 50)"
    by simp
qed

lemma loaded_pen_radius: "fpen_radius loaded_f = Finite (5764607523034235 / 2 ^ 51)"
  using rd_pen by (simp add: loaded_f_def)

subsection \<open>The scale setters at the edge of the float range\<close>

lemma set_xscale_f_overflow:
  "set_xscale_f (Finite (- (2 ^ 1023))) (Finite (2 ^ 1023)) g = Inr (g\<lparr>fxmin := NaN, fxmax := NaN\<rparr>)"
  "set_yscale_f (Finite (- (2 ^ 1023))) (Finite (2 ^ 1023)) g = Inr (g\<lparr>fymin := NaN, fymax := NaN\<rparr>)"
  using r_overflow
  by (simp_all add: set_xscale_f_def set_yscale_f_def fge_def fsub_def BORDER_f_def)

text \<open>
  Where the difference of the two bounds is a double, the border term is \<open>0.0\<close> and
  the setters store the bounds they were given.
\<close>

lemma set_scale_f_exact:
  assumes "round_double a = Finite a" "round_double b = Finite b"
    and "round_double (b - a) = Finite d"
  shows "set_xscale_f (Finite a) (Finite b) g =
      (if b \<le> a then Inl (Exception ''min must be less than max'')
       else Inr (g\<lparr>fxmin := Finite a, fxmax := Finite b\<rparr>))"
    and "set_yscale_f (Finite a) (Finite b) g =
      (if b \<le> a then Inl (Exception ''min must be less than max'')
       else Inr (g\<lparr>fymin := Finite a, fymax := Finite b\<rparr>))"
  using assms
  by (simp_all add: set_xscale_f_def set_yscale_f_def fge_def fsub_def BORDER_f_def)

text \<open>
  Claim C1 (the code misses a case). \<^verbatim>\<open>set_xscale(-2.0**1023, 2.0**1023)\<close> passes the check,
  since the minimum is below the maximum. \<^verbatim>\<open>size = max - min\<close> is \<open>2 ^ 1024\<close>, which
  no double holds: it is the infinity. \<^verbatim>\<open>_BORDER * size\<close> is \<open>0.0 * inf\<close>, which is
  NaN, and so are \<^verbatim>\<open>min - _BORDER * size\<close> and \<^verbatim>\<open>max + _BORDER * size\<close>: the call
  returns with NaN in both bounds instead of the minimum and the maximum it was given.
  \<^verbatim>\<open>set_yscale\<close> does the same.
\<close>

theorem set_scale_overflow:
  "set_xscale_f (Finite (- (2 ^ 1023))) (Finite (2 ^ 1023)) loaded_f
     = Inr (loaded_f\<lparr>fxmin := NaN, fxmax := NaN\<rparr>)
   \<and> set_yscale_f (Finite (- (2 ^ 1023))) (Finite (2 ^ 1023)) loaded_f
     = Inr (loaded_f\<lparr>fymin := NaN, fymax := NaN\<rparr>)"
  by (simp only: set_xscale_f_overflow simp_thms)

subsection \<open>The range invariants over floats\<close>

text \<open>
  Claim C6 (the code misses a case; the defect of C1 is one of the two). The range
  invariants hold when the module is loaded. After
  \<^verbatim>\<open>set_xscale(-2.0**1023, 2.0**1023)\<close>, which returns, \<^verbatim>\<open>_xmin < _xmax\<close> is false: both
  are NaN. \<^verbatim>\<open>set_yscale\<close> loses \<^verbatim>\<open>_ymin < _ymax\<close> the same way. And
  \<^verbatim>\<open>set_pen_radius(float('nan'))\<close> passes the check \<^verbatim>\<open>r < 0.0\<close>, which is false for NaN,
  and stores NaN, for which \<^verbatim>\<open>_pen_radius >= 0\<close> is false.
\<close>

theorem range_invariant_lost:
  "range_invariant_f loaded_f
   \<and> (\<exists>g. set_xscale_f (Finite (- (2 ^ 1023))) (Finite (2 ^ 1023)) loaded_f = Inr g
        \<and> \<not> range_invariant_f g)
   \<and> (\<exists>g. set_yscale_f (Finite (- (2 ^ 1023))) (Finite (2 ^ 1023)) loaded_f = Inr g
        \<and> \<not> range_invariant_f g)
   \<and> (\<exists>g. set_pen_radius_f NaN loaded_f = Inr g \<and> \<not> range_invariant_f g)"
proof (intro conjI)
  show "range_invariant_f loaded_f"
    using rd_pen by (simp add: range_invariant_f_def loaded_f_def fge_def)
  show "\<exists>g. set_xscale_f (Finite (- (2 ^ 1023))) (Finite (2 ^ 1023)) loaded_f = Inr g
      \<and> \<not> range_invariant_f g"
    using set_xscale_f_overflow [of loaded_f] by (simp add: range_invariant_f_def)
  show "\<exists>g. set_yscale_f (Finite (- (2 ^ 1023))) (Finite (2 ^ 1023)) loaded_f = Inr g
      \<and> \<not> range_invariant_f g"
    using set_xscale_f_overflow [of loaded_f] by (simp add: range_invariant_f_def)
  show "\<exists>g. set_pen_radius_f NaN loaded_f = Inr g \<and> \<not> range_invariant_f g"
    by (simp add: set_pen_radius_f_def range_invariant_f_def fge_def)
qed

subsection \<open>The recursion of the thick line between neighbouring doubles\<close>

lemma scale_far:
  "scale_x_f loaded_f (Finite (2 ^ 53)) = Inr (Finite (2 ^ 62))"
  "scale_x_f loaded_f (Finite (2 ^ 53 + 2)) = Inr (Finite (2 ^ 62 + 1024))"
  "scale_y_f loaded_f (Finite 0) = Inr (Finite 512)"
  using rd_small rd_big
  by (simp_all add: scale_x_f_def scale_y_f_def loaded_f_def fsub_def py_fdiv_def)

lemma midpoint_far:
  "fquot (fadd (Finite (2 ^ 53)) (Finite (2 ^ 53 + 2))) (Finite 2) = Finite (2 ^ 53)"
  "fquot (fadd (Finite 0) (Finite 0)) (Finite 2) = Finite 0"
  using r_tie rd_big by simp_all

lemma thick_line_f_point:
  "thick_line_f depth loaded_f (Finite (2 ^ 53)) (Finite 0) (Finite (2 ^ 53)) (Finite 0) r =
     (if depth = 0 then Inl RecursionError else Inr [(Finite (2 ^ 53), Finite 0, r)])"
  using scale_far rd_small by (cases depth) (simp_all add: fsub_def)

lemma thick_line_f_far:
  "thick_line_f depth loaded_f (Finite (2 ^ 53)) (Finite 0) (Finite (2 ^ 53 + 2)) (Finite 0) r
     = Inl RecursionError"
proof (induction depth)
  case 0
  show ?case by simp
next
  case (Suc depth)
  have far: "\<not> flt (fabs (fsub (Finite (2 ^ 62)) (Finite (2 ^ 62 + 1024)))) (Finite 1)"
    using rd_small by (simp add: fsub_def)
  show ?case
    using Suc far scale_far midpoint_far thick_line_f_point [of depth r]
    by (simp add: Let_def)
qed

text \<open>The same with the scale moved there, so that every pixel coordinate is small.\<close>

lemma rd_shift:
  "round_double 4 = Finite 4"
  "round_double 256 = Finite 256"
  "round_double (- 256) = Finite (- 256)"
  "round_double 1024 = Finite 1024"
  "round_double (1 / 2) = Finite (1 / 2)"
  "round_double (2 ^ 53 + 4) = Finite (2 ^ 53 + 4)"
  using round_double_int [of 4] round_double_int [of 256] round_double_int [of "- 256"]
    round_double_int [of 1024] round_double_exact [of 1 "- 1"]
    round_double_exact [of "2 ^ 52 + 2" 1]
  by simp_all

lemma set_xscale_f_shifted:
  "set_xscale_f (Finite (2 ^ 53)) (Finite (2 ^ 53 + 4)) loaded_f = Inr shifted_f"
  using rd_shift rd_big
  by (simp add: set_xscale_f_def shifted_f_def fge_def fsub_def BORDER_f_def)

lemma scale_shifted:
  "scale_x_f shifted_f (Finite (2 ^ 53)) = Inr (Finite 0)"
  "scale_x_f shifted_f (Finite (2 ^ 53 + 2)) = Inr (Finite 256)"
  "scale_y_f shifted_f (Finite (1 / 2)) = Inr (Finite 256)"
  using rd_small rd_shift
  by (simp_all add: scale_x_f_def scale_y_f_def shifted_f_def loaded_f_def fsub_def
      py_fdiv_def)

lemma midpoint_half:
  "fquot (fadd (Finite (1 / 2)) (Finite (1 / 2))) (Finite 2) = Finite (1 / 2)"
  using rd_small rd_shift by simp

lemma thick_line_f_point_shifted:
  "thick_line_f depth shifted_f (Finite (2 ^ 53)) (Finite (1 / 2)) (Finite (2 ^ 53))
     (Finite (1 / 2)) r =
     (if depth = 0 then Inl RecursionError else Inr [(Finite (2 ^ 53), Finite (1 / 2), r)])"
  using scale_shifted by (cases depth) (simp_all add: fsub_def)

lemma thick_line_f_shifted:
  "thick_line_f depth shifted_f (Finite (2 ^ 53)) (Finite (1 / 2)) (Finite (2 ^ 53 + 2))
     (Finite (1 / 2)) r = Inl RecursionError"
proof (induction depth)
  case 0
  show ?case by simp
next
  case (Suc depth)
  have far: "\<not> flt (fabs (fsub (Finite 0) (Finite 256))) (Finite 1)"
    using rd_shift by (simp add: fsub_def)
  show ?case
    using Suc far scale_shifted midpoint_far(1) midpoint_half
      thick_line_f_point_shifted [of depth r]
    by (simp add: Let_def)
qed

text \<open>
  Claim C7 (the code misses a case). \<open>2 ^ 53\<close> and \<open>2 ^ 53 + 2\<close> are neighbouring doubles, and
  the sum of the two rounds to \<open>2 ^ 54\<close>, so the midpoint \<^verbatim>\<open>(x0+x1)/2\<close> that
  \<^verbatim>\<open>_thick_line\<close> computes is \<open>x0\<close> again: the second recursive call has the arguments
  of the call that makes it. With the scale set by
  \<^verbatim>\<open>set_xscale(2**53, 2**53 + 4)\<close> the range invariants hold and the canvas is 512
  pixels wide and high; the two ends of \<^verbatim>\<open>line(2**53, 0.5, 2**53 + 2, 0.5)\<close> are 256
  pixels apart, at the pixels \<open>(0, 256)\<close> and \<open>(256, 256)\<close>; the default pen makes the
  line a thick one; and whatever depth of recursion the interpreter allows, the call
  ends in RecursionError. The same holds with the scale the module is loaded with, for
  \<^verbatim>\<open>line(2**53, 0, 2**53 + 2, 0)\<close>.
\<close>

theorem thick_line_recursion_error:
  "set_xscale_f (Finite (2 ^ 53)) (Finite (2 ^ 53 + 4)) loaded_f = Inr shifted_f
   \<and> range_invariant_f shifted_f
   \<and> flt (Finite 0) (fcanvasWidth shifted_f) \<and> flt (Finite 0) (fcanvasHeight shifted_f)
   \<and> \<not> flt (fmul (fpen_radius shifted_f) (Finite 2)) (Finite 3)
   \<and> scale_x_f shifted_f (Finite (2 ^ 53)) = Inr (Finite 0)
   \<and> scale_x_f shifted_f (Finite (2 ^ 53 + 2)) = Inr (Finite 256)
   \<and> scale_y_f shifted_f (Finite (1 / 2)) = Inr (Finite 256)
   \<and> thick_line_f depth shifted_f (Finite (2 ^ 53)) (Finite (1 / 2)) (Finite (2 ^ 53 + 2))
       (Finite (1 / 2)) r = Inl RecursionError
   \<and> range_invariant_f loaded_f
   \<and> \<not> flt (fmul (fpen_radius loaded_f) (Finite 2)) (Finite 3)
   \<and> thick_line_f depth loaded_f (Finite (2 ^ 53)) (Finite 0) (Finite (2 ^ 53 + 2)) (Finite 0) r
       = Inl RecursionError"
proof -
  have inv: "range_invariant_f loaded_f" "range_invariant_f shifted_f"
    using rd_pen
    by (simp_all add: range_invariant_f_def shifted_f_def loaded_f_def fge_def)
  have canvas: "flt (Finite 0) (fcanvasWidth shifted_f)"
    "flt (Finite 0) (fcanvasHeight shifted_f)"
    by (simp_all add: shifted_f_def loaded_f_def)
  have pen: "\<not> flt (fmul (fpen_radius loaded_f) (Finite 2)) (Finite 3)"
    "\<not> flt (fmul (fpen_radius shifted_f) (Finite 2)) (Finite 3)"
    using rd_pen by (simp_all add: shifted_f_def loaded_pen_radius)
  from inv canvas pen set_xscale_f_shifted scale_shifted
    thick_line_f_shifted [of depth r] thick_line_f_far [of depth r]
  show ?thesis
    by (simp only: simp_thms)
qed

end
